theory Spec2Isabelle
  imports Complex_Main "HOL-Library.AList" "HOL-Library.Sublist"
begin

section \<open>JavaScript values\<close>

text \<open>
  The program is the browser script \<^verbatim>\<open>src/frontend/script.js\<close>. A JavaScript number
  is a NaN, an infinity or a finite value; the finite values are modelled as reals and every
  arithmetic operation of the script is the exact operation followed by the rounding
  function \<open>rnd\<close> of the platform (IEEE-754 round-to-nearest in a browser). Strings are
  character lists, a character standing for one code unit below 256.
\<close>

datatype jsnum = NaN | NegInfinity | Finite real | PosInfinity

text \<open>The comparisons \<^verbatim>\<open>x > c\<close>, \<^verbatim>\<open>x < c\<close> against a finite literal: false on NaN.\<close>

fun js_gt :: "jsnum \<Rightarrow> real \<Rightarrow> bool" where
  "js_gt NaN c = False"
| "js_gt NegInfinity c = False"
| "js_gt (Finite x) c = (c < x)"
| "js_gt PosInfinity c = True"

fun js_lt :: "jsnum \<Rightarrow> real \<Rightarrow> bool" where
  "js_lt NaN c = False"
| "js_lt NegInfinity c = True"
| "js_lt (Finite x) c = (x < c)"
| "js_lt PosInfinity c = False"

text \<open>\<^verbatim>\<open>x || 0\<close> on a number: NaN and zero are falsy.\<close>

definition or_zero :: "jsnum \<Rightarrow> jsnum" where
  "or_zero x = (if x = NaN \<or> x = Finite 0 then Finite 0 else x)"

text \<open>\<^verbatim>\<open>Math.round\<close> and \<^verbatim>\<open>Math.floor\<close> on a finite value; \<^verbatim>\<open>Math.round\<close> rounds a tie up.\<close>

definition Math_round :: "real \<Rightarrow> int" where
  "Math_round x = \<lfloor>x + 1 / 2\<rfloor>"

definition Math_floor :: "real \<Rightarrow> int" where
  "Math_floor x = \<lfloor>x\<rfloor>"

text \<open>
  The values an object of the script holds. Numbers stored in objects are the integer risk
  scores; an object is the list of its own properties in insertion order (JavaScript
  enumerates integer-like names first; no function below depends on the order).
\<close>

datatype jsval =
    JUndefined
  | JNull
  | JBool bool
  | JNum int
  | JStr string
  | JArr "jsval list"
  | JObj "(string \<times> jsval) list"

type_synonym row = "(string \<times> string) list"
type_synonym result = "(string \<times> jsval) list"

fun truthy :: "jsval \<Rightarrow> bool" where
  "truthy JUndefined = False"
| "truthy JNull = False"
| "truthy (JBool b) = b"
| "truthy (JNum n) = (n \<noteq> 0)"
| "truthy (JStr s) = (s \<noteq> [])"
| "truthy (JArr xs) = True"
| "truthy (JObj ps) = True"

text \<open>Reading a property of an object: \<^verbatim>\<open>undefined\<close> when the object has none of that name.\<close>

definition get_prop :: "result \<Rightarrow> string \<Rightarrow> jsval" where
  "get_prop obj k = (case map_of obj k of None \<Rightarrow> JUndefined | Some v \<Rightarrow> v)"

section \<open>Strings\<close>

text \<open>White space as \<^verbatim>\<open>String.prototype.trim\<close> sees it, among the code units below 256.\<close>

definition js_whitespace :: "char \<Rightarrow> bool" where
  "js_whitespace c = (c \<in> set [CHR 0x09, CHR 0x0A, CHR 0x0B, CHR 0x0C, CHR 0x0D, CHR 0x20, CHR 0xA0])"

definition trim :: "string \<Rightarrow> string" where
  "trim s = rev (dropWhile js_whitespace (rev (dropWhile js_whitespace s)))"

text \<open>\<^verbatim>\<open>s.split(c)\<close> for a one-character separator: never empty, \<^verbatim>\<open>''.split(c)\<close> is \<^verbatim>\<open>['']\<close>.\<close>

fun js_split :: "char \<Rightarrow> string \<Rightarrow> string list" where
  "js_split c [] = [[]]"
| "js_split c (x # xs) =
     (if x = c then [] # js_split c xs
      else (case js_split c xs of [] \<Rightarrow> [[x]] | w # ws \<Rightarrow> (x # w) # ws))"

text \<open>\<^verbatim>\<open>xs.join(sep)\<close> on an array of strings.\<close>

fun js_join :: "string \<Rightarrow> string list \<Rightarrow> string" where
  "js_join sep [] = []"
| "js_join sep [x] = x"
| "js_join sep (x # y # ys) = x @ sep @ js_join sep (y # ys)"

text \<open>\<^verbatim>\<open>s.includes(p)\<close>: \<open>p\<close> occurs in \<open>s\<close> at some position, code unit by code unit.\<close>

fun js_includes :: "string \<Rightarrow> string \<Rightarrow> bool" where
  "js_includes [] p = (p = [])"
| "js_includes (c # s) p = (prefix p (c # s) \<or> js_includes s p)"

text \<open>The decimal numeral of a natural number and of an integer (\<^verbatim>\<open>String(n)\<close>).\<close>

fun digits :: "nat \<Rightarrow> string" where
  "digits n = (if n < 10 then [''0123456789'' ! n] else digits (n div 10) @ [''0123456789'' ! (n mod 10)])"

declare digits.simps [simp del]

definition string_of_int :: "int \<Rightarrow> string" where
  "string_of_int i = (if i < 0 then CHR ''-'' # digits (nat (- i)) else digits (nat i))"

section \<open>The platform\<close>

text \<open>
  What the browser supplies and the script only calls: \<^verbatim>\<open>parseFloat\<close>; the local hour
  of \<^verbatim>\<open>new Date(s)\<close> (\<open>None\<close> for an invalid date, whose \<^verbatim>\<open>getHours()\<close> is NaN);
  the rounding of floating-point arithmetic; \<^verbatim>\<open>toLowerCase\<close>; and \<^verbatim>\<open>JSON.parse\<close>,
  which throws a SyntaxError (\<open>None\<close>) on a text that is not JSON.
\<close>

record platform =
  parseFloat :: "string \<Rightarrow> jsnum"
  dateHours :: "string \<Rightarrow> nat option"
  rnd :: "real \<Rightarrow> real"
  toLowerCase :: "string \<Rightarrow> string"
  JSON_parse :: "string \<Rightarrow> jsval option"

definition fadd :: "platform \<Rightarrow> real \<Rightarrow> real \<Rightarrow> real" where
  "fadd P x y = rnd P (x + y)"

definition fmul :: "platform \<Rightarrow> real \<Rightarrow> real \<Rightarrow> real" where
  "fmul P x y = rnd P (x * y)"

text \<open>
  The properties of round-to-nearest that the proofs below use: it is monotone, it is
  idempotent, and it leaves the integers up to \<open>2 ^ 53\<close> as they are.
\<close>

definition round_to_nearest :: "(real \<Rightarrow> real) \<Rightarrow> bool" where
  "round_to_nearest f =
     ((\<forall>x y. x \<le> y \<longrightarrow> f x \<le> f y) \<and> (\<forall>x. f (f x) = f x) \<and>
      (\<forall>n::int. \<bar>n\<bar> \<le> 2 ^ 53 \<longrightarrow> f (of_int n) = of_int n))"

text \<open>
  A platform to run examples on: exact arithmetic, and \<^verbatim>\<open>parseFloat\<close>, \<^verbatim>\<open>Date\<close> and
  \<^verbatim>\<open>JSON.parse\<close> given on the few texts the examples use.
\<close>

definition test_platform :: platform where
  "test_platform =
     \<lparr>parseFloat = (\<lambda>s. if s = ''6000'' then Finite 6000 else NaN),
      dateHours = (\<lambda>s. if s = ''2024-01-01T03:00:00Z'' then Some 3 else None),
      rnd = (\<lambda>x. x),
      toLowerCase = (\<lambda>s. s),
      JSON_parse = (\<lambda>s. if s = ''[]'' then Some (JArr [])
                         else if s = ''[{}]'' then Some (JArr [JObj []])
                         else None)\<rparr>"

section \<open>Classification\<close>

text \<open>\<^verbatim>\<open>determineFraudStatus\<close> and \<^verbatim>\<open>getRiskLevel\<close> (script.js, lines 145-160).\<close>

definition determineFraudStatus :: "int \<Rightarrow> string" where
  "determineFraudStatus riskScore =
     (if riskScore \<ge> 70 then ''fraud''
      else if riskScore \<ge> 50 then ''warning''
      else ''legitimate'')"

definition getRiskLevel :: "int \<Rightarrow> string" where
  "getRiskLevel riskScore =
     (if riskScore \<ge> 70 then ''High''
      else if riskScore \<ge> 50 then ''Medium''
      else ''Low'')"

section \<open>Risk scoring\<close>

text \<open>
  \<^verbatim>\<open>calculateRiskScore\<close> (script.js, lines 110-138). A transaction is a Raw Row, a
  property that the row lacks reads as \<^verbatim>\<open>undefined\<close>: \<^verbatim>\<open>parseFloat\<close> then converts
  it to the text \<^verbatim>\<open>undefined\<close>, \<^verbatim>\<open>?.includes\<close> is skipped, and \<^verbatim>\<open>new Date(undefined)\<close>
  is an invalid date. The argument \<open>r\<close> is the value that \<^verbatim>\<open>Math.random()\<close> returns.
\<close>

definition str_arg :: "string option \<Rightarrow> string" where
  "str_arg v = (case v of None \<Rightarrow> ''undefined'' | Some s \<Rightarrow> s)"

definition amount_of :: "platform \<Rightarrow> row \<Rightarrow> jsnum" where
  "amount_of P transaction = or_zero (parseFloat P (str_arg (map_of transaction ''amount'')))"

definition highRiskLocations :: "string list" where
  "highRiskLocations = [''Nigeria'', ''Russia'', ''Ukraine'', ''Unknown'']"

definition location_flag :: "row \<Rightarrow> bool" where
  "location_flag transaction =
     list_ex (\<lambda>loc. case map_of transaction ''location'' of
                        None \<Rightarrow> False
                      | Some l \<Rightarrow> js_includes l loc) highRiskLocations"

definition hour_of :: "platform \<Rightarrow> row \<Rightarrow> nat option" where
  "hour_of P transaction =
     (case map_of transaction ''timestamp'' of None \<Rightarrow> None | Some s \<Rightarrow> dateHours P s)"

definition time_flag :: "platform \<Rightarrow> row \<Rightarrow> bool" where
  "time_flag P transaction =
     (case hour_of P transaction of None \<Rightarrow> False | Some hour \<Rightarrow> hour \<ge> 1 \<and> hour \<le> 5)"

definition jitter :: "platform \<Rightarrow> real \<Rightarrow> real" where
  "jitter P r = fmul P r 40"

definition calculateRiskScore :: "platform \<Rightarrow> real \<Rightarrow> row \<Rightarrow> int" where
  "calculateRiskScore P r transaction =
     (let score = 0;
          amount = amount_of P transaction;
          score = (if js_gt amount 5000 then fadd P score 30
                   else if js_gt amount 2000 then fadd P score 20
                   else if js_gt amount 1000 then fadd P score 10
                   else if js_lt amount 10 then fadd P score 15
                   else score);
          score = fadd P score (jitter P r);
          score = (if location_flag transaction then fadd P score 25 else score);
          score = (if time_flag P transaction then fadd P score 15 else score)
      in min (Math_round score) 100)"

text \<open>
  The scorer as the specification words it: the three contributions by themselves, to be
  compared with the code above.
\<close>

definition spec_amount :: "platform \<Rightarrow> row \<Rightarrow> jsnum" where
  "spec_amount P transaction =
     (case map_of transaction ''amount'' of
        None \<Rightarrow> Finite 0
      | Some s \<Rightarrow> (if parseFloat P s = NaN then Finite 0 else parseFloat P s))"

definition spec_tier :: "jsnum \<Rightarrow> real" where
  "spec_tier amount =
     (if js_gt amount 5000 then 30
      else if js_gt amount 2000 then 20
      else if js_gt amount 1000 then 10
      else if js_lt amount 10 then 15
      else 0)"

definition spec_locFlag :: "row \<Rightarrow> real" where
  "spec_locFlag transaction =
     (case map_of transaction ''location'' of
        None \<Rightarrow> 0
      | Some l \<Rightarrow>
          (if sublist ''Nigeria'' l \<or> sublist ''Russia'' l \<or> sublist ''Ukraine'' l \<or>
              sublist ''Unknown'' l
           then 25 else 0))"

definition spec_timeFlag :: "platform \<Rightarrow> row \<Rightarrow> real" where
  "spec_timeFlag P transaction =
     (case map_of transaction ''timestamp'' of
        None \<Rightarrow> 0
      | Some s \<Rightarrow>
          (case dateHours P s of
             None \<Rightarrow> 0
           | Some hour \<Rightarrow> (if hour \<in> {1..5} then 15 else 0)))"

section \<open>Parsing\<close>

text \<open>
  \<^verbatim>\<open>row[header] = v\<close> on an object made by \<^verbatim>\<open>{}\<close>: the assignment creates or
  overwrites an own property, except under the name \<^verbatim>\<open>__proto__\<close>, which is an accessor of
  \<^verbatim>\<open>Object.prototype\<close> whose setter ignores a string.
\<close>

definition set_prop :: "string \<Rightarrow> 'v \<Rightarrow> (string \<times> 'v) list \<Rightarrow> (string \<times> 'v) list" where
  "set_prop k v obj = (if k = ''__proto__'' then obj else AList.update k v obj)"

text \<open>\<^verbatim>\<open>values[index] || ''\<close>: the empty text when the line has no such field.\<close>

definition value_at :: "string list \<Rightarrow> nat \<Rightarrow> string" where
  "value_at values index = (if index < length values then values ! index else [])"

text \<open>\<^verbatim>\<open>headers.forEach((header, index) => ...)\<close>, from position \<open>index\<close> on.\<close>

fun forEach_header :: "string list \<Rightarrow> nat \<Rightarrow> string list \<Rightarrow> row \<Rightarrow> row" where
  "forEach_header [] index values row = row"
| "forEach_header (header # headers) index values row =
     forEach_header headers (Suc index) values (set_prop header (value_at values index) row)"

text \<open>The \<^verbatim>\<open>for\<close> loop of \<^verbatim>\<open>parseCSV\<close> over the lines that are left, \<open>data\<close> being the rows pushed so far.\<close>

fun parse_lines :: "string list \<Rightarrow> string list \<Rightarrow> row list \<Rightarrow> row list" where
  "parse_lines headers [] data = data"
| "parse_lines headers (line # lines) data =
     (if trim line = [] then parse_lines headers lines data
      else
        (let values = map trim (js_split CHR '','' line);
             row = forEach_header headers 0 values []
         in parse_lines headers lines (data @ [row])))"

text \<open>
  \<^verbatim>\<open>parseCSV\<close> (script.js, lines 25-44). \<open>js_split\<close> never returns the empty list, so
  \<^verbatim>\<open>lines[0]\<close> is its head.
\<close>

definition parseCSV :: "string \<Rightarrow> row list" where
  "parseCSV content =
     (let lines = js_split CHR 0x0A (trim content);
          headers = map trim (js_split CHR '','' (hd lines))
      in parse_lines headers (tl lines) [])"

section \<open>The analysis pipeline\<close>

text \<open>
  \<^verbatim>\<open>generateFraudIndicators\<close> (script.js, lines 78-102). \<open>random\<close> is the sequence of the
  values \<^verbatim>\<open>Math.random()\<close> returns and \<open>k\<close> the number of values drawn so far; each
  function returns the new count with its result.
\<close>

definition indicators_catalog :: "string list" where
  "indicators_catalog =
     [''Unusual transaction amount'',
      ''Suspicious merchant category'',
      ''Transaction from high-risk location'',
      ''Unusual time of transaction'',
      ''Multiple transactions in short period'',
      ''Card used in multiple locations'',
      ''Velocity check failed'',
      ''Amount exceeds normal spending pattern'']"

text \<open>\<^verbatim>\<open>available[index]\<close>: \<^verbatim>\<open>undefined\<close> out of range.\<close>

definition array_at :: "string list \<Rightarrow> int \<Rightarrow> jsval" where
  "array_at xs i = (if 0 \<le> i \<and> i < int (length xs) then JStr (xs ! nat i) else JUndefined)"

text \<open>\<^verbatim>\<open>available.splice(index, 1)\<close>: a negative index counts from the end, one past the end removes nothing.\<close>

definition splice_one :: "int \<Rightarrow> 'a list \<Rightarrow> 'a list" where
  "splice_one i xs =
     (let len = int (length xs);
          start = (if i < 0 then max (len + i) 0 else min i len)
      in take (nat start) xs @ drop (nat start + 1) xs)"

fun pick_indicators ::
  "platform \<Rightarrow> (nat \<Rightarrow> real) \<Rightarrow> nat \<Rightarrow> nat \<Rightarrow> string list \<Rightarrow> jsval list \<Rightarrow> jsval list \<times> nat" where
  "pick_indicators P random k 0 available selected = (selected, k)"
| "pick_indicators P random k (Suc n) available selected =
     (let index = Math_floor (fmul P (random k) (real (length available)))
      in pick_indicators P random (Suc k) n (splice_one index available)
           (selected @ [array_at available index]))"

definition generateFraudIndicators :: "platform \<Rightarrow> (nat \<Rightarrow> real) \<Rightarrow> nat \<Rightarrow> jsval list \<times> nat" where
  "generateFraudIndicators P random k =
     (let count = Math_floor (fmul P (random k) 3) + 2
      in pick_indicators P random (Suc k) (nat count) indicators_catalog [])"

text \<open>
  The object literal \<^verbatim>\<open>{...transaction, riskScore, status, indicators, riskLevel: ...}\<close>:
  the row's own properties first, then the four computed ones, each overwriting a property
  of the same name.
\<close>

definition enrich :: "row \<Rightarrow> int \<Rightarrow> string \<Rightarrow> jsval list \<Rightarrow> string \<Rightarrow> result" where
  "enrich transaction riskScore status indicators riskLevel =
     AList.update ''riskLevel'' (JStr riskLevel)
       (AList.update ''indicators'' (JArr indicators)
         (AList.update ''status'' (JStr status)
           (AList.update ''riskScore'' (JNum riskScore)
             (map (\<lambda>(k, v). (k, JStr v)) transaction))))"

text \<open>
  \<^verbatim>\<open>performAnalysis\<close> (script.js, lines 367-426): the loop over the transactions, with
  \<open>analysisResults\<close> the results pushed so far. The progress display, the delay after each
  row and the hand-over to the store are left out.
\<close>

fun analysis_loop ::
  "platform \<Rightarrow> (nat \<Rightarrow> real) \<Rightarrow> nat \<Rightarrow> row list \<Rightarrow> result list \<Rightarrow> result list" where
  "analysis_loop P random k [] analysisResults = analysisResults"
| "analysis_loop P random k (transaction # transactions) analysisResults =
     (let riskScore = calculateRiskScore P (random k) transaction;
          status = determineFraudStatus riskScore;
          (indicators, k') =
            (if status = ''fraud'' then generateFraudIndicators P random (Suc k)
             else ([], Suc k))
      in analysis_loop P random k' transactions
           (analysisResults @
             [enrich transaction riskScore status indicators (getRiskLevel riskScore)]))"

definition performAnalysis :: "platform \<Rightarrow> (nat \<Rightarrow> real) \<Rightarrow> row list \<Rightarrow> result list" where
  "performAnalysis P random transactions = analysis_loop P random 0 transactions []"

section \<open>Export\<close>

text \<open>\<^verbatim>\<open>x || ''\<close>, and the text \<^verbatim>\<open>Array.prototype.join\<close> makes of an element.\<close>

definition or_empty :: "jsval \<Rightarrow> jsval" where
  "or_empty v = (if truthy v then v else JStr [])"

fun to_string :: "jsval \<Rightarrow> string" where
  "to_string JUndefined = ''undefined''"
| "to_string JNull = ''null''"
| "to_string (JBool b) = (if b then ''true'' else ''false'')"
| "to_string (JNum n) = string_of_int n"
| "to_string (JStr s) = s"
| "to_string (JArr xs) =
     js_join '','' (map (\<lambda>x. if x = JUndefined \<or> x = JNull then [] else to_string x) xs)"
| "to_string (JObj ps) = ''[object Object]''"

definition join_element :: "jsval \<Rightarrow> string" where
  "join_element x = (if x = JUndefined \<or> x = JNull then [] else to_string x)"

text \<open>\<^verbatim>\<open>exportToCSV\<close> (script.js, lines 690-718): the text of the file offered for download.\<close>

definition export_headers :: "string list" where
  "export_headers =
     [''Transaction ID'', ''Amount'', ''Merchant'', ''Location'', ''Timestamp'',
      ''Card Number'', ''Risk Score'', ''Status'']"

definition export_cells :: "result \<Rightarrow> jsval list" where
  "export_cells transaction =
     [or_empty (get_prop transaction ''transaction_id''),
      or_empty (get_prop transaction ''amount''),
      or_empty (get_prop transaction ''merchant''),
      or_empty (get_prop transaction ''location''),
      or_empty (get_prop transaction ''timestamp''),
      or_empty (get_prop transaction ''card_number''),
      or_empty (get_prop transaction ''riskScore''),
      or_empty (get_prop transaction ''status'')]"

definition export_line :: "result \<Rightarrow> string" where
  "export_line transaction = js_join '','' (map join_element (export_cells transaction))"

definition exportToCSV :: "result list \<Rightarrow> string" where
  "exportToCSV results =
     js_join [CHR 0x0A] (js_join '','' export_headers # map export_line results)"

section \<open>The results view\<close>

text \<open>
  The division and the product of \<^verbatim>\<open>(fraudCount / totalTransactions) * 100\<close>: a zero
  divided by zero is NaN, and NaN times a number is NaN.
\<close>

definition js_div :: "platform \<Rightarrow> real \<Rightarrow> real \<Rightarrow> jsnum" where
  "js_div P x y =
     (if y = 0 then (if x = 0 then NaN else if 0 < x then PosInfinity else NegInfinity)
      else Finite (rnd P (x / y)))"

fun js_times :: "platform \<Rightarrow> jsnum \<Rightarrow> real \<Rightarrow> jsnum" where
  "js_times P NaN c = NaN"
| "js_times P (Finite x) c = Finite (rnd P (x * c))"
| "js_times P PosInfinity c = (if 0 < c then PosInfinity else if c < 0 then NegInfinity else NaN)"
| "js_times P NegInfinity c = (if 0 < c then NegInfinity else if c < 0 then PosInfinity else NaN)"

text \<open>
  \<^verbatim>\<open>x.toFixed(1)\<close>, for \<open>x\<close> below \<open>10 ^ 21\<close>: the nearest number of tenths, the larger
  one at a tie, written with one digit after the point.
\<close>

definition fixed1 :: "real \<Rightarrow> string" where
  "fixed1 x = (let n = nat \<lfloor>x * 10 + 1 / 2\<rfloor> in digits (n div 10) @ ''.'' @ digits (n mod 10))"

fun toFixed1 :: "jsnum \<Rightarrow> string" where
  "toFixed1 NaN = ''NaN''"
| "toFixed1 PosInfinity = ''Infinity''"
| "toFixed1 NegInfinity = ''-Infinity''"
| "toFixed1 (Finite x) = (if x < 0 then ''-'' @ fixed1 (- x) else fixed1 x)"

text \<open>
  \<^verbatim>\<open>displayResults\<close> (script.js, lines 462-486): the four summary cards. The table it
  fills is \<open>populateResultsTable\<close> below.
\<close>

record summary =
  totalTransactions :: nat
  legitimateCount :: nat
  fraudCount :: nat
  fraudRate :: string

definition displayResults :: "platform \<Rightarrow> result list \<Rightarrow> summary" where
  "displayResults P results =
     (let total = length results;
          frauds = length (filter (\<lambda>r. get_prop r ''status'' = JStr ''fraud'') results);
          legitimates = length (filter (\<lambda>r. get_prop r ''status'' = JStr ''legitimate'' \<or>
                                           get_prop r ''status'' = JStr ''warning'') results);
          rate = toFixed1 (js_times P (js_div P (real frauds) (real total)) 100)
      in \<lparr>totalTransactions = total, legitimateCount = legitimates, fraudCount = frauds,
          fraudRate = rate @ ''%''\<rparr>)"

text \<open>
  A row of the results table: its \<^verbatim>\<open>data-status\<close> attribute, its text and its
  \<^verbatim>\<open>style.display\<close>. \<^verbatim>\<open>populateResultsTable\<close> (lines 522-564) makes one row per result;
  \<open>text_of\<close> is the text its template renders, which goes through the browser's
  currency and date formats.
\<close>

record tr =
  data_status :: string
  textContent :: string
  display :: string

definition populateResultsTable :: "(result \<Rightarrow> string) \<Rightarrow> result list \<Rightarrow> tr list" where
  "populateResultsTable text_of results =
     map (\<lambda>transaction.
            \<lparr>data_status = to_string (get_prop transaction ''status''),
             textContent = text_of transaction,
             display = []\<rparr>) results"

text \<open>
  The table, the "no results" message and the global \<^verbatim>\<open>currentFilter\<close>;
  \<^verbatim>\<open>filterResults\<close> (lines 570-601) and \<^verbatim>\<open>searchTransactions\<close> (lines 808-852), whose
  argument is the value of the search box.
\<close>

record view =
  rows :: "tr list"
  noResults_hidden :: bool
  currentFilter :: string

definition filterResults :: "string \<Rightarrow> view \<Rightarrow> view" where
  "filterResults mode v =
     (let shown = map (\<lambda>row.
            if mode = ''all'' then row\<lparr>display := []\<rparr>
            else if mode = ''fraud'' \<and> data_status row = ''fraud'' then row\<lparr>display := []\<rparr>
            else if mode = ''legitimate'' \<and>
                    (data_status row = ''legitimate'' \<or> data_status row = ''warning'')
              then row\<lparr>display := []\<rparr>
            else row\<lparr>display := ''none''\<rparr>) (rows v);
          visibleCount = length (filter (\<lambda>row. display row = []) shown)
      in v\<lparr>rows := shown, noResults_hidden := (visibleCount \<noteq> 0), currentFilter := mode\<rparr>)"

definition searchTransactions :: "platform \<Rightarrow> string \<Rightarrow> view \<Rightarrow> view" where
  "searchTransactions P box v =
     (let searchTerm = trim (toLowerCase P box);
          shown = map (\<lambda>row.
            if searchTerm = [] \<or> js_includes (toLowerCase P (textContent row)) searchTerm
              then row\<lparr>display := []\<rparr>
            else row\<lparr>display := ''none''\<rparr>) (rows v);
          visibleCount = length (filter (\<lambda>row. display row = []) shown)
      in v\<lparr>rows := shown, noResults_hidden := (visibleCount \<noteq> 0)\<rparr>)"

text \<open>The two predicates of the specification: what a status filter admits, what a search term matches.\<close>

definition filter_admits :: "string \<Rightarrow> string \<Rightarrow> bool" where
  "filter_admits f status =
     (if f = ''all'' then True
      else if f = ''fraud'' then status = ''fraud''
      else if f = ''legitimate'' then status = ''legitimate'' \<or> status = ''warning''
      else False)"

definition search_matches :: "platform \<Rightarrow> string \<Rightarrow> string \<Rightarrow> bool" where
  "search_matches P t text =
     (trim (toLowerCase P t) = [] \<or> sublist (trim (toLowerCase P t)) (toLowerCase P text))"

text \<open>
  The page: the two entries of \<^verbatim>\<open>localStorage\<close> among the others, the address the window
  shows, the two globals, and what the results view has rendered. A function that can throw
  returns the page as the exception leaves it.
\<close>

record page =
  localStorage :: "string \<rightharpoonup> string"
  href :: string
  window_analysisResults :: jsval
  window_analysisTimestamp :: "string option"
  rendered :: "(summary \<times> tr list) option"

datatype 'a outcome = Returned 'a | Threw 'a

text \<open>\<^verbatim>\<open>results.length === 0\<close>, on whatever \<^verbatim>\<open>JSON.parse\<close> returned.\<close>

fun length_is_zero :: "jsval \<Rightarrow> bool" where
  "length_is_zero (JArr xs) = (xs = [])"
| "length_is_zero (JStr s) = (s = [])"
| "length_is_zero (JObj ps) = (map_of ps ''length'' = Some (JNum 0))"
| "length_is_zero v = False"

text \<open>
  An element of the stored array as the view reads it: reading a property of \<^verbatim>\<open>null\<close>
  throws, and a number, a text or an array has none of the properties the view reads.
\<close>

fun as_result :: "jsval \<Rightarrow> result option" where
  "as_result (JObj ps) = Some ps"
| "as_result JNull = None"
| "as_result JUndefined = None"
| "as_result v = Some []"

fun as_results :: "jsval list \<Rightarrow> result list option" where
  "as_results [] = Some []"
| "as_results (r # rs) =
     (case as_result r of
        None \<Rightarrow> None
      | Some x \<Rightarrow> (case as_results rs of None \<Rightarrow> None | Some xs \<Rightarrow> Some (x # xs)))"

text \<open>
  \<^verbatim>\<open>initResultsPage\<close> (script.js, lines 776-802; this later declaration replaces the one
  of line 445). \<^verbatim>\<open>JSON.parse\<close> is called outside any \<^verbatim>\<open>try\<close>, and
  \<^verbatim>\<open>displayResults\<close> calls \<^verbatim>\<open>results.filter\<close>, which only an array has.
\<close>

definition initResultsPage :: "platform \<Rightarrow> (result \<Rightarrow> string) \<Rightarrow> page \<Rightarrow> page outcome" where
  "initResultsPage P text_of pg =
     (let resultsJSON = localStorage pg ''fraudGuard_results'';
          timestamp = localStorage pg ''fraudGuard_timestamp'';
          parsed = (case resultsJSON of
                      None \<Rightarrow> Some JNull
                    | Some s \<Rightarrow> if s = [] then Some JNull else JSON_parse P s)
      in case parsed of
           None \<Rightarrow> Threw pg
         | Some results \<Rightarrow>
             if \<not> truthy results \<or> length_is_zero results then
               Returned (pg\<lparr>localStorage :=
                              (localStorage pg)(''fraudGuard_results'' := None,
                                                ''fraudGuard_timestamp'' := None),
                            href := ''upload.html''\<rparr>)
             else
               (let pg' = pg\<lparr>window_analysisResults := results,
                             window_analysisTimestamp := timestamp\<rparr>
                in case results of
                     JArr rs \<Rightarrow>
                       (case as_results rs of
                          None \<Rightarrow> Threw pg'
                        | Some objs \<Rightarrow>
                            Returned (pg'\<lparr>rendered :=
                              Some (displayResults P objs, populateResultsTable text_of objs)\<rparr>))
                   | _ \<Rightarrow> Threw pg'))"

section \<open>The invariant of an Enriched Result\<close>

text \<open>
  Status and risk level are the classifications of the risk score the result carries, and
  the indicators are an array that is non-empty only under the status \<open>fraud\<close>.
\<close>

definition enriched_invariant :: "result \<Rightarrow> bool" where
  "enriched_invariant res =
     (\<exists>s inds.
        get_prop res ''riskScore'' = JNum s \<and>
        get_prop res ''status'' = JStr (determineFraudStatus s) \<and>
        get_prop res ''riskLevel'' = JStr (getRiskLevel s) \<and>
        get_prop res ''indicators'' = JArr inds \<and>
        (inds \<noteq> [] \<longrightarrow> get_prop res ''status'' = JStr ''fraud''))"

text \<open>The properties \<open>exportToCSV\<close> reads, in the order of its columns.\<close>

definition export_fields :: "string list" where
  "export_fields =
     [''transaction_id'', ''amount'', ''merchant'', ''location'', ''timestamp'',
      ''card_number'', ''riskScore'', ''status'']"

section \<open>The vocabulary of the parser's and the export's properties\<close>

text \<open>
  The lines of an input, the header's column list, the data lines that are not blank, and
  the row the loop of \<open>parseCSV\<close> makes of one data line.
\<close>

definition csv_lines :: "string \<Rightarrow> string list" where
  "csv_lines content = js_split CHR 0x0A (trim content)"

definition csv_headers :: "string \<Rightarrow> string list" where
  "csv_headers content = map trim (js_split CHR '','' (hd (csv_lines content)))"

definition data_lines :: "string \<Rightarrow> string list" where
  "data_lines content = filter (\<lambda>l. trim l \<noteq> []) (tl (csv_lines content))"

definition row_of_line :: "string list \<Rightarrow> string \<Rightarrow> row" where
  "row_of_line headers line = forEach_header headers 0 (map trim (js_split CHR '','' line)) []"

text \<open>The value of a field of a row, the empty text when the row has no such field.\<close>

definition field_text :: "row \<Rightarrow> string \<Rightarrow> string" where
  "field_text transaction k = (case map_of transaction k of None \<Rightarrow> [] | Some v \<Rightarrow> v)"

text \<open>
  A text that a line of comma-separated values gives back: trimmed, without a comma or a
  line feed. A character that is neither white space, comma nor line feed is plain.
\<close>

definition clean :: "string \<Rightarrow> bool" where
  "clean v = (trim v = v \<and> CHR '','' \<notin> set v \<and> CHR 0x0A \<notin> set v)"

definition plain :: "char \<Rightarrow> bool" where
  "plain c = (\<not> js_whitespace c \<and> c \<noteq> CHR '','' \<and> c \<noteq> CHR 0x0A)"

text \<open>The Risk Score cell of the export: empty for the score 0.\<close>

definition score_text :: "int \<Rightarrow> string" where
  "score_text s = (if s = 0 then [] else string_of_int s)"

text \<open>The cells of an exported line: eight clean texts, the last of them not blank.\<close>

definition good_cells :: "string list \<Rightarrow> bool" where
  "good_cells cells = (length cells = 8 \<and> (\<forall>c \<in> set cells. clean c) \<and>
     last cells \<noteq> [] \<and> \<not> js_whitespace (last (last cells)))"

section \<open>Properties of the classifier\<close>

text \<open>
  Claim C2. For every integer score \<open>s\<close> the status is \<open>fraud\<close> exactly when \<open>s \<ge> 70\<close>,
  \<open>warning\<close> exactly when \<open>50 \<le> s < 70\<close> and \<open>legitimate\<close> exactly otherwise, and the risk
  level is \<open>High\<close>, \<open>Medium\<close>, \<open>Low\<close> in the same three cases.
\<close>

theorem classifier_thresholds:
  "(determineFraudStatus s = ''fraud'' \<longleftrightarrow> 70 \<le> s) \<and>
   (determineFraudStatus s = ''warning'' \<longleftrightarrow> 50 \<le> s \<and> s < 70) \<and>
   (determineFraudStatus s = ''legitimate'' \<longleftrightarrow> s < 50) \<and>
   (getRiskLevel s = ''High'' \<longleftrightarrow> determineFraudStatus s = ''fraud'') \<and>
   (getRiskLevel s = ''Medium'' \<longleftrightarrow> determineFraudStatus s = ''warning'') \<and>
   (getRiskLevel s = ''Low'' \<longleftrightarrow> determineFraudStatus s = ''legitimate'')"
  by (simp add: determineFraudStatus_def getRiskLevel_def)

theorem classifier_thresholds_witness:
  "determineFraudStatus 70 = ''fraud'' \<and> getRiskLevel 70 = ''High'' \<and>
   determineFraudStatus 69 = ''warning'' \<and> getRiskLevel 69 = ''Medium'' \<and>
   determineFraudStatus 50 = ''warning'' \<and> getRiskLevel 50 = ''Medium'' \<and>
   determineFraudStatus 49 = ''legitimate'' \<and> getRiskLevel 49 = ''Low''"
  using classifier_thresholds [of 70] classifier_thresholds [of 69]
    classifier_thresholds [of 50] classifier_thresholds [of 49]
  by simp

section \<open>Properties of the scorer\<close>

lemma rnd_of_int:
  "round_to_nearest f \<Longrightarrow> \<bar>n\<bar> \<le> 2 ^ 53 \<Longrightarrow> f (of_int n) = of_int n"
  by (simp add: round_to_nearest_def)

lemma rnd_zero: "round_to_nearest f \<Longrightarrow> f 0 = 0"
  using rnd_of_int [of f 0] by simp

lemma rnd_numeral:
  "round_to_nearest f \<Longrightarrow> numeral k \<le> (2 ^ 53 :: int) \<Longrightarrow> f (numeral k) = numeral k"
  using rnd_of_int [of f "numeral k"] by simp

lemma rnd_nonneg: "round_to_nearest f \<Longrightarrow> 0 \<le> x \<Longrightarrow> 0 \<le> f x"
proof -
  assume f: "round_to_nearest f" and x: "0 \<le> x"
  from f x have "f 0 \<le> f x" by (simp add: round_to_nearest_def)
  with f show ?thesis by (simp add: rnd_zero)
qed

lemma rnd_idem: "round_to_nearest f \<Longrightarrow> f (f x) = f x"
  by (simp add: round_to_nearest_def)

lemma fadd_nonneg:
  "round_to_nearest (rnd P) \<Longrightarrow> 0 \<le> x \<Longrightarrow> 0 \<le> y \<Longrightarrow> 0 \<le> fadd P x y"
  by (simp add: fadd_def rnd_nonneg)

lemma jitter_nonneg: "round_to_nearest (rnd P) \<Longrightarrow> 0 \<le> r \<Longrightarrow> 0 \<le> jitter P r"
  by (simp add: jitter_def fmul_def rnd_nonneg)

lemma Math_round_nonneg: "0 \<le> x \<Longrightarrow> 0 \<le> Math_round x"
  by (simp add: Math_round_def)

lemma js_includes_sublist: "js_includes s p \<longleftrightarrow> sublist p s"
  by (induction s) (auto simp: sublist_Cons_right)

lemma location_flag_spec: "spec_locFlag t = (if location_flag t then 25 else 0)"
  by (simp add: spec_locFlag_def location_flag_def highRiskLocations_def js_includes_sublist
      split: option.splits)

lemma time_flag_spec: "spec_timeFlag P t = (if time_flag P t then 15 else 0)"
  by (simp add: spec_timeFlag_def time_flag_def hour_of_def split: option.splits)

lemma amount_spec: "parseFloat P ''undefined'' = NaN \<Longrightarrow> amount_of P t = spec_amount P t"
  by (simp add: amount_of_def spec_amount_def or_zero_def str_arg_def split: option.splits)

lemma fadd_zero_left_tier:
  "round_to_nearest (rnd P) \<Longrightarrow>
   fadd P 0 30 = 30 \<and> fadd P 0 20 = 20 \<and> fadd P 0 10 = 10 \<and> fadd P 0 15 = 15"
  by (simp add: fadd_def rnd_numeral)

lemma fadd_zero_right: "round_to_nearest (rnd P) \<Longrightarrow> fadd P (fadd P x y) 0 = fadd P x y"
  by (simp add: fadd_def rnd_idem)

text \<open>
  Claim C1. For every Raw Row, whatever its \<open>amount\<close>, \<open>location\<close> and \<open>timestamp\<close> hold
  (nothing, the empty text, or a text that does not parse), the scorer returns an integer
  between 0 and 100. The model has no error branch because no operation on this path throws.
  An amount that does not parse counts as 0, a timestamp that does not parse sets no time
  flag, and a row without a location sets no location flag.
\<close>

theorem calculateRiskScore_bounded:
  assumes rn: "round_to_nearest (rnd P)" and r: "0 \<le> r"
  shows "0 \<le> calculateRiskScore P r t \<and> calculateRiskScore P r t \<le> 100 \<and>
    (parseFloat P (str_arg (map_of t ''amount'')) = NaN \<longrightarrow> amount_of P t = Finite 0) \<and>
    (map_of t ''timestamp'' = None \<or>
       (\<exists>s. map_of t ''timestamp'' = Some s \<and> dateHours P s = None) \<longrightarrow>
       \<not> time_flag P t) \<and>
    (map_of t ''location'' = None \<longrightarrow> \<not> location_flag t)"
proof -
  have nonneg: "0 \<le> fadd P x y" if "0 \<le> x" "0 \<le> y" for x y
    using rn that by (rule fadd_nonneg)
  have j: "0 \<le> jitter P r"
    using rn r by (rule jitter_nonneg)
  have "0 \<le> calculateRiskScore P r t"
    unfolding calculateRiskScore_def Let_def
    by (intro min.boundedI Math_round_nonneg) (simp_all add: nonneg j)
  moreover have "calculateRiskScore P r t \<le> 100"
    by (simp add: calculateRiskScore_def Let_def)
  moreover have "parseFloat P (str_arg (map_of t ''amount'')) = NaN \<longrightarrow> amount_of P t = Finite 0"
    by (simp add: amount_of_def or_zero_def)
  moreover have "map_of t ''timestamp'' = None \<or>
       (\<exists>s. map_of t ''timestamp'' = Some s \<and> dateHours P s = None) \<longrightarrow>
       \<not> time_flag P t"
    by (auto simp: time_flag_def hour_of_def)
  moreover have "map_of t ''location'' = None \<longrightarrow> \<not> location_flag t"
    by (simp add: location_flag_def highRiskLocations_def)
  ultimately show ?thesis by blast
qed

text \<open>
  Claim C3. With the jitter fixed, the score is the sum of the amount tier, the jitter, the
  location flag and the time flag, rounded and capped at 100, where the contributions are
  the ones the specification lists. The sum is taken as the code takes it: in floating
  point, from left to right.
\<close>

theorem calculateRiskScore_formula:
  assumes rn: "round_to_nearest (rnd P)" and undef: "parseFloat P ''undefined'' = NaN"
  shows "calculateRiskScore P r t =
    min (Math_round
      (fadd P (fadd P (fadd P (spec_tier (spec_amount P t)) (jitter P r)) (spec_locFlag t))
         (spec_timeFlag P t))) 100"
proof -
  let ?a = "amount_of P t"
  let ?s1 = "if js_gt ?a 5000 then fadd P 0 30
             else if js_gt ?a 2000 then fadd P 0 20
             else if js_gt ?a 1000 then fadd P 0 10
             else if js_lt ?a 10 then fadd P 0 15 else 0"
  let ?s2 = "fadd P ?s1 (jitter P r)"
  let ?s3 = "if location_flag t then fadd P ?s2 25 else ?s2"
  let ?s4 = "if time_flag P t then fadd P ?s3 15 else ?s3"
  have code: "calculateRiskScore P r t = min (Math_round ?s4) 100"
    by (simp add: calculateRiskScore_def Let_def)
  have s1: "?s1 = spec_tier (spec_amount P t)"
    using fadd_zero_left_tier [OF rn] amount_spec [OF undef, of t] by (simp add: spec_tier_def)
  have s3: "?s3 = fadd P ?s2 (spec_locFlag t)"
    using fadd_zero_right [OF rn] by (simp add: location_flag_spec)
  have s4: "?s4 = fadd P ?s3 (spec_timeFlag P t)"
    using fadd_zero_right [OF rn] by (simp add: time_flag_spec)
  show ?thesis
    by (subst code, subst s4, subst s3, subst s1) (rule refl)
qed

lemma test_platform_rounding: "round_to_nearest (rnd test_platform)"
  by (simp add: round_to_nearest_def test_platform_def)

lemmas score_eval =
  calculateRiskScore_def test_platform_def amount_of_def or_zero_def str_arg_def fadd_def
  fmul_def jitter_def location_flag_def highRiskLocations_def time_flag_def hour_of_def
  Math_round_def

theorem calculateRiskScore_bounded_witness:
  "round_to_nearest (rnd test_platform) \<and> (0::real) \<le> 1 / 2 \<and>
   0 \<le> calculateRiskScore test_platform (1 / 2) [(''amount'', ''abc''), (''timestamp'', ''garbage'')] \<and>
   calculateRiskScore test_platform (1 / 2) [(''amount'', ''abc''), (''timestamp'', ''garbage'')] \<le> 100 \<and>
   calculateRiskScore test_platform (1 / 2) [(''amount'', ''abc''), (''timestamp'', ''garbage'')] = 35 \<and>
   amount_of test_platform [(''amount'', ''abc''), (''timestamp'', ''garbage'')] = Finite 0 \<and>
   \<not> time_flag test_platform [(''amount'', ''abc''), (''timestamp'', ''garbage'')] \<and>
   \<not> location_flag [(''amount'', ''abc''), (''timestamp'', ''garbage'')]"
proof -
  have r: "(0::real) \<le> 1 / 2" by simp
  have "calculateRiskScore test_platform (1 / 2) [(''amount'', ''abc''), (''timestamp'', ''garbage'')] = 35"
    by (simp add: score_eval)
  moreover have "parseFloat test_platform (str_arg (map_of [(''amount'', ''abc''), (''timestamp'', ''garbage'')] ''amount'')) = NaN"
    by (simp add: test_platform_def str_arg_def)
  moreover have "\<exists>s. map_of [(''amount'', ''abc''), (''timestamp'', ''garbage'')] ''timestamp'' = Some s \<and>
      dateHours test_platform s = None"
    by (simp add: test_platform_def)
  moreover have "map_of [(''amount'', ''abc''), (''timestamp'', ''garbage'')] ''location'' = None"
    by simp
  ultimately show ?thesis
    using calculateRiskScore_bounded [OF test_platform_rounding r,
        of "[(''amount'', ''abc''), (''timestamp'', ''garbage'')]"]
      test_platform_rounding
    by simp
qed

theorem calculateRiskScore_formula_witness:
  "round_to_nearest (rnd test_platform) \<and> parseFloat test_platform ''undefined'' = NaN \<and>
   calculateRiskScore test_platform 0
     [(''transaction_id'', ''TXN0001''), (''amount'', ''6000''), (''merchant'', ''Amazon''),
      (''location'', ''Unknown''), (''timestamp'', ''2024-01-01T03:00:00Z''),
      (''card_number'', ''****1234'')] =
   min (Math_round (fadd test_platform (fadd test_platform (fadd test_platform 30
     (jitter test_platform 0)) 25) 15)) 100 \<and>
   min (Math_round (fadd test_platform (fadd test_platform (fadd test_platform 30
     (jitter test_platform 0)) 25) 15)) 100 = 70"
proof -
  let ?t = "[(''transaction_id'', ''TXN0001''), (''amount'', ''6000''), (''merchant'', ''Amazon''),
      (''location'', ''Unknown''), (''timestamp'', ''2024-01-01T03:00:00Z''),
      (''card_number'', ''****1234'')]"
  have undef: "parseFloat test_platform ''undefined'' = NaN"
    by (simp add: test_platform_def)
  have tier: "spec_tier (spec_amount test_platform ?t) = 30"
    by (simp add: spec_tier_def spec_amount_def test_platform_def)
  have loc: "spec_locFlag ?t = 25"
    by (simp add: location_flag_spec location_flag_def highRiskLocations_def)
  have tm: "spec_timeFlag test_platform ?t = 15"
    by (simp add: spec_timeFlag_def test_platform_def)
  have "min (Math_round (fadd test_platform (fadd test_platform (fadd test_platform 30
     (jitter test_platform 0)) 25) 15)) 100 = 70"
    by (simp add: score_eval)
  then show ?thesis
    using calculateRiskScore_formula [OF test_platform_rounding undef, of 0 ?t]
      test_platform_rounding undef
    by (simp only: tier loc tm simp_thms)
qed

section \<open>Properties of the pipeline\<close>

lemma enrich_props:
  "get_prop (enrich t s st inds lvl) ''riskScore'' = JNum s"
  "get_prop (enrich t s st inds lvl) ''status'' = JStr st"
  "get_prop (enrich t s st inds lvl) ''indicators'' = JArr inds"
  "get_prop (enrich t s st inds lvl) ''riskLevel'' = JStr lvl"
  by (simp_all add: get_prop_def enrich_def update_conv')

lemma analysis_loop_invariant:
  "\<forall>res \<in> set acc. enriched_invariant res \<Longrightarrow>
   \<forall>res \<in> set (analysis_loop P random k ts acc). enriched_invariant res"
proof (induction ts arbitrary: k acc)
  case Nil
  then show ?case by simp
next
  case (Cons t ts)
  show ?case
    apply (simp only: analysis_loop.simps Let_def split: prod.split)
    apply (intro allI impI Cons.IH)
    using Cons.prems
    apply (auto simp: enriched_invariant_def enrich_props split: if_splits)
    done
qed

text \<open>
  Claim C5. Every Enriched Result of the pipeline carries the status and the risk level
  that classify its own risk score, whatever the row held under those names, and its
  indicators are non-empty only when the status is \<open>fraud\<close>.
\<close>

theorem performAnalysis_invariant:
  "res \<in> set (performAnalysis P random transactions) \<Longrightarrow> enriched_invariant res"
  using analysis_loop_invariant [of "[]" P random 0 transactions]
  by (simp add: performAnalysis_def)

lemmas pipeline_eval =
  performAnalysis_def score_eval determineFraudStatus_def getRiskLevel_def enrich_def

theorem performAnalysis_invariant_witness:
  "performAnalysis test_platform (\<lambda>k. 0) [[(''amount'', ''50''), (''status'', ''fraud'')]] =
     [[(''amount'', JStr ''50''), (''status'', JStr ''legitimate''), (''riskScore'', JNum 15),
       (''indicators'', JArr []), (''riskLevel'', JStr ''Low'')]] \<and>
   enriched_invariant
     [(''amount'', JStr ''50''), (''status'', JStr ''legitimate''), (''riskScore'', JNum 15),
      (''indicators'', JArr []), (''riskLevel'', JStr ''Low'')]"
proof -
  have run: "performAnalysis test_platform (\<lambda>k. 0) [[(''amount'', ''50''), (''status'', ''fraud'')]] =
     [[(''amount'', JStr ''50''), (''status'', JStr ''legitimate''), (''riskScore'', JNum 15),
       (''indicators'', JArr []), (''riskLevel'', JStr ''Low'')]]"
    by (simp add: pipeline_eval)
  show ?thesis
    using performAnalysis_invariant [of _ test_platform "\<lambda>k. 0"
        "[[(''amount'', ''50''), (''status'', ''fraud'')]]"]
    by (simp only: run list.set singleton_iff simp_thms)
qed

section \<open>Properties of the export\<close>

lemma export_cells_fields:
  "export_cells t = map (\<lambda>k. or_empty (get_prop t k)) export_fields"
  by (simp add: export_cells_def export_fields_def)

lemma join_element_falsy: "\<not> truthy v \<Longrightarrow> join_element (or_empty v) = []"
  by (simp add: join_element_def or_empty_def)

text \<open>
  Claim C10. In the export, a field of a result whose value is falsy becomes the empty
  text: a risk score of 0 leaves the Risk Score column empty, and an empty transaction field
  is exported as empty.
\<close>

theorem export_falsy_is_empty:
  "(\<forall>i < length export_fields.
      \<not> truthy (get_prop t (export_fields ! i)) \<longrightarrow>
      map join_element (export_cells t) ! i = []) \<and>
   (get_prop t ''riskScore'' = JNum 0 \<longrightarrow>
      map join_element (export_cells t) ! 6 = [] \<and> export_headers ! 6 = ''Risk Score'') \<and>
   (\<forall>i < 6. get_prop t (export_fields ! i) = JStr [] \<longrightarrow>
      map join_element (export_cells t) ! i = []) \<and>
   export_line t = js_join '','' (map join_element (export_cells t))"
proof -
  have cell: "map join_element (export_cells t) ! i = join_element (or_empty (get_prop t (export_fields ! i)))"
    if "i < length export_fields" for i
    using that by (simp add: export_cells_fields)
  have len: "length export_fields = 8"
    by (simp add: export_fields_def)
  have falsy: "\<forall>i < length export_fields.
      \<not> truthy (get_prop t (export_fields ! i)) \<longrightarrow> map join_element (export_cells t) ! i = []"
    by (simp add: cell join_element_falsy)
  have six: "export_fields ! 6 = ''riskScore''"
    by (simp add: export_fields_def)
  have score: "get_prop t ''riskScore'' = JNum 0 \<longrightarrow>
      map join_element (export_cells t) ! 6 = [] \<and> export_headers ! 6 = ''Risk Score''"
    using cell [of 6] by (simp add: len six join_element_falsy export_headers_def)
  have empty: "\<forall>i < 6. get_prop t (export_fields ! i) = JStr [] \<longrightarrow>
      map join_element (export_cells t) ! i = []"
    by (simp add: cell len join_element_falsy)
  show ?thesis
    using falsy score empty by (simp add: export_line_def)
qed

theorem export_falsy_is_empty_witness:
  "get_prop [(''transaction_id'', JStr ''T1''), (''amount'', JStr []), (''riskScore'', JNum 0),
             (''status'', JStr ''legitimate'')] ''riskScore'' = JNum 0 \<and>
   map join_element (export_cells [(''transaction_id'', JStr ''T1''), (''amount'', JStr []),
     (''riskScore'', JNum 0), (''status'', JStr ''legitimate'')]) ! 6 = [] \<and>
   export_line [(''transaction_id'', JStr ''T1''), (''amount'', JStr []), (''riskScore'', JNum 0),
                (''status'', JStr ''legitimate'')] = ''T1,,,,,,,legitimate''"
proof -
  let ?t = "[(''transaction_id'', JStr ''T1''), (''amount'', JStr []), (''riskScore'', JNum 0),
             (''status'', JStr ''legitimate'')]"
  have score: "get_prop ?t ''riskScore'' = JNum 0"
    by (simp add: get_prop_def)
  have line: "export_line ?t = ''T1,,,,,,,legitimate''"
    by (simp add: export_line_def export_cells_def get_prop_def or_empty_def join_element_def)
  show ?thesis
    using export_falsy_is_empty [of ?t] score line by blast
qed

section \<open>Properties of the results view\<close>

lemma tenths_exact:
  assumes "0 < (t::nat)"
  shows "nat \<lfloor>real f / real t * 100 * 10 + 1 / 2\<rfloor> = (2000 * f + t) div (2 * t)"
proof -
  have "real f / real t * 100 * 10 + 1 / 2 = real (2000 * f + t) / real (2 * t)"
    using assms by (simp add: field_simps)
  then have "\<lfloor>real f / real t * 100 * 10 + 1 / 2\<rfloor> = \<lfloor>real (2000 * f + t) / real (2 * t)\<rfloor>"
    by simp
  also have "\<dots> = int ((2000 * f + t) div (2 * t))"
    by (rule floor_divide_of_nat_eq)
  finally show ?thesis by simp
qed

text \<open>
  Claim C7, as the code has it. \<open>displayResults\<close> divides without a guard: for the empty
  Result Set the quotient is NaN and the card shows \<open>NaN%\<close>, not \<open>0%\<close>.
\<close>

theorem displayResults_empty_rate:
  "fraudRate (displayResults test_platform []) = ''NaN%'' \<and>
   fraudRate (displayResults test_platform []) \<noteq> ''0%'' \<and>
   fraudRate (displayResults test_platform []) \<noteq> ''0.0%''"
  by (simp add: displayResults_def js_div_def)

text \<open>
  Claim C7, amended. For a Result Set that is not empty the fraud rate is the count of the
  results of status \<open>fraud\<close> divided by the total, times 100, written with one decimal place
  and a percent sign; under exact arithmetic the tenths shown are \<open>1000 * fraudCount / total\<close>
  rounded to the nearest integer, a tie going up. An empty stored Result Set does not reach
  \<open>displayResults\<close>: \<open>initResultsPage\<close> clears the store and goes to the upload page.
\<close>

theorem displayResults_rate:
  "(results \<noteq> [] \<longrightarrow>
      totalTransactions (displayResults P results) = length results \<and>
      fraudCount (displayResults P results) =
        length (filter (\<lambda>r. get_prop r ''status'' = JStr ''fraud'') results) \<and>
      fraudCount (displayResults P results) \<le> totalTransactions (displayResults P results) \<and>
      fraudRate (displayResults P results) =
        toFixed1 (Finite (fmul P (rnd P (real (fraudCount (displayResults P results)) /
          real (totalTransactions (displayResults P results)))) 100)) @ ''%'' \<and>
      (rnd P = (\<lambda>x. x) \<longrightarrow>
        fraudRate (displayResults P results) =
          (let n = (2000 * fraudCount (displayResults P results) +
                    totalTransactions (displayResults P results))
                   div (2 * totalTransactions (displayResults P results))
           in digits (n div 10) @ ''.'' @ digits (n mod 10) @ ''%''))) \<and>
   (localStorage pg ''fraudGuard_results'' = Some s \<and> JSON_parse P s = Some (JArr []) \<longrightarrow>
      initResultsPage P text_of pg =
        Returned (pg\<lparr>localStorage := (localStorage pg)(''fraudGuard_results'' := None,
                                                        ''fraudGuard_timestamp'' := None),
                     href := ''upload.html''\<rparr>))"
proof -
  let ?f = "length (filter (\<lambda>r. get_prop r ''status'' = JStr ''fraud'') results)"
  let ?t = "length results"
  have total: "totalTransactions (displayResults P results) = ?t"
    by (simp add: displayResults_def Let_def)
  have frauds: "fraudCount (displayResults P results) = ?f"
    by (simp add: displayResults_def Let_def)
  have rate: "fraudRate (displayResults P results) =
      toFixed1 (Finite (fmul P (rnd P (real ?f / real ?t)) 100)) @ ''%''"
    if "results \<noteq> []"
    using that by (simp add: displayResults_def Let_def js_div_def fmul_def)
  have exact: "fraudRate (displayResults P results) =
      (let n = (2000 * ?f + ?t) div (2 * ?t) in digits (n div 10) @ ''.'' @ digits (n mod 10) @ ''%'')"
    if ne: "results \<noteq> []" and ex: "rnd P = (\<lambda>x. x)"
  proof -
    have t: "0 < ?t" using ne by simp
    have "0 \<le> real ?f / real ?t * 100"
      by (intro mult_nonneg_nonneg divide_nonneg_nonneg) simp_all
    then have "\<not> real ?f / real ?t * 100 < 0"
      by (simp only: not_less)
    then show ?thesis
      using ex tenths_exact [OF t, of ?f]
      by (simp add: rate [OF ne] fmul_def fixed1_def Let_def del: length_filter_conv_card)
  qed
  have gate: "initResultsPage P text_of pg =
        Returned (pg\<lparr>localStorage := (localStorage pg)(''fraudGuard_results'' := None,
                                                        ''fraudGuard_timestamp'' := None),
                     href := ''upload.html''\<rparr>)"
    if "localStorage pg ''fraudGuard_results'' = Some s" "JSON_parse P s = Some (JArr [])"
    using that by (simp add: initResultsPage_def)
  show ?thesis
    unfolding total frauds using rate exact gate by simp
qed

theorem displayResults_rate_witness:
  "[[(''status'', JStr ''fraud'')], [], []] \<noteq> ([] :: result list) \<and>
   rnd test_platform = (\<lambda>x. x) \<and>
   fraudCount (displayResults test_platform [[(''status'', JStr ''fraud'')], [], []]) = 1 \<and>
   totalTransactions (displayResults test_platform [[(''status'', JStr ''fraud'')], [], []]) = 3 \<and>
   fraudRate (displayResults test_platform [[(''status'', JStr ''fraud'')], [], []]) =
     (let n = (2000 * 1 + 3) div (2 * 3) in digits (n div 10) @ ''.'' @ digits (n mod 10) @ ''%'') \<and>
   (let n = (2000 * 1 + 3) div (2 * 3) in digits (n div 10) @ ''.'' @ digits (n mod 10) @ ''%'') =
     ''33.3%''"
proof -
  let ?rs = "[[(''status'', JStr ''fraud'')], [], []] :: result list"
  have ne: "?rs \<noteq> []" by simp
  have ex: "rnd test_platform = (\<lambda>x. x)" by (simp add: test_platform_def)
  have f: "fraudCount (displayResults test_platform ?rs) = 1"
    by (simp add: displayResults_def get_prop_def)
  have t: "totalTransactions (displayResults test_platform ?rs) = 3"
    by (simp add: displayResults_def)
  have shown: "(let n = (2000 * 1 + 3) div (2 * 3) in digits (n div 10) @ ''.'' @ digits (n mod 10) @ ''%'') =
     ''33.3%''"
    by (simp add: Let_def digits.simps)
  have "fraudRate (displayResults test_platform ?rs) =
     (let n = (2000 * 1 + 3) div (2 * 3) in digits (n div 10) @ ''.'' @ digits (n mod 10) @ ''%'')"
    using displayResults_rate [of ?rs test_platform] ne ex unfolding f t by blast
  then show ?thesis
    using ne ex f t shown by blast
qed

text \<open>
  Claim C9, as the code has it. Each of \<open>filterResults\<close> and \<open>searchTransactions\<close> sets the
  display of every row from its own predicate alone: a \<open>legitimate\<close> row hidden by the filter
  \<open>fraud\<close> is shown again by a search for the empty term.
\<close>

theorem search_after_filter_counterexample:
  "\<not> (display (rows (searchTransactions test_platform []
          (filterResults ''fraud''
            \<lparr>rows = [\<lparr>data_status = ''legitimate'', textContent = ''TXN0001'', display = []\<rparr>],
             noResults_hidden = True, currentFilter = ''all''\<rparr>)) ! 0) = []
      \<longleftrightarrow> (filter_admits ''fraud'' ''legitimate'' \<and> search_matches test_platform [] ''TXN0001''))"
  by (simp add: searchTransactions_def filterResults_def filter_admits_def test_platform_def
      trim_def)

lemma shown_iff:
  "display (if c then row\<lparr>display := []\<rparr> else row\<lparr>display := ''none''\<rparr>) = [] \<longleftrightarrow> c"
  by simp

lemma filterResults_row:
  "i < length (rows v) \<Longrightarrow>
   display (rows (filterResults f v) ! i) = [] \<longleftrightarrow> filter_admits f (data_status (rows v ! i))"
  by (simp add: filterResults_def filter_admits_def Let_def)

lemma searchTransactions_row:
  "i < length (rows v) \<Longrightarrow>
   display (rows (searchTransactions P t v) ! i) = [] \<longleftrightarrow>
   search_matches P t (textContent (rows v ! i))"
  by (simp add: searchTransactions_def search_matches_def Let_def js_includes_sublist)

lemma filterResults_keeps:
  "length (rows (filterResults f v)) = length (rows v) \<and>
   (i < length (rows v) \<longrightarrow>
      data_status (rows (filterResults f v) ! i) = data_status (rows v ! i) \<and>
      textContent (rows (filterResults f v) ! i) = textContent (rows v ! i))"
  by (simp add: filterResults_def Let_def)

lemma searchTransactions_keeps:
  "length (rows (searchTransactions P t v)) = length (rows v) \<and>
   (i < length (rows v) \<longrightarrow>
      data_status (rows (searchTransactions P t v) ! i) = data_status (rows v ! i) \<and>
      textContent (rows (searchTransactions P t v) ! i) = textContent (rows v ! i))"
  by (simp add: searchTransactions_def Let_def)

text \<open>
  Claim C9, amended. The two do not compose, the later call decides alone: after the status
  filter and then the search a row is visible exactly when it matches the search (the
  trimmed, lower-cased term is empty or occurs in the lower-cased text of the row), and
  after the search and then the status filter exactly when the filter admits its status.
\<close>

theorem later_call_decides:
  assumes "i < length (rows v)"
  shows "(display (rows (searchTransactions P t (filterResults f v)) ! i) = [] \<longleftrightarrow>
            search_matches P t (textContent (rows v ! i))) \<and>
         (display (rows (filterResults f (searchTransactions P t v)) ! i) = [] \<longleftrightarrow>
            filter_admits f (data_status (rows v ! i)))"
proof -
  have "i < length (rows (filterResults f v))"
    using assms filterResults_keeps [of f v i] by simp
  then have a: "display (rows (searchTransactions P t (filterResults f v)) ! i) = [] \<longleftrightarrow>
      search_matches P t (textContent (rows v ! i))"
    using assms searchTransactions_row [of i "filterResults f v" P t] filterResults_keeps [of f v i]
    by simp
  have "i < length (rows (searchTransactions P t v))"
    using assms searchTransactions_keeps [of P t v i] by simp
  then have b: "display (rows (filterResults f (searchTransactions P t v)) ! i) = [] \<longleftrightarrow>
      filter_admits f (data_status (rows v ! i))"
    using assms filterResults_row [of i "searchTransactions P t v" f]
      searchTransactions_keeps [of P t v i]
    by simp
  from a b show ?thesis by simp
qed

theorem later_call_decides_witness:
  "(0::nat) < length (rows
      \<lparr>rows = [\<lparr>data_status = ''legitimate'', textContent = ''TXN0001'', display = []\<rparr>],
       noResults_hidden = True, currentFilter = ''all''\<rparr>) \<and>
   search_matches test_platform ''TXN'' ''TXN0001'' \<and>
   display (rows (searchTransactions test_platform ''TXN''
     (filterResults ''fraud''
        \<lparr>rows = [\<lparr>data_status = ''legitimate'', textContent = ''TXN0001'', display = []\<rparr>],
         noResults_hidden = True, currentFilter = ''all''\<rparr>)) ! 0) = [] \<and>
   \<not> filter_admits ''fraud'' ''legitimate'' \<and>
   display (rows (filterResults ''fraud'' (searchTransactions test_platform ''TXN''
        \<lparr>rows = [\<lparr>data_status = ''legitimate'', textContent = ''TXN0001'', display = []\<rparr>],
         noResults_hidden = True, currentFilter = ''all''\<rparr>)) ! 0) \<noteq> []"
proof -
  let ?v = "\<lparr>rows = [\<lparr>data_status = ''legitimate'', textContent = ''TXN0001'', display = []\<rparr>],
       noResults_hidden = True, currentFilter = ''all''\<rparr>"
  have i: "(0::nat) < length (rows ?v)" by simp
  have m: "search_matches test_platform ''TXN'' ''TXN0001''"
    by (simp add: search_matches_def test_platform_def trim_def js_whitespace_def
        js_includes_sublist [symmetric])
  have a: "\<not> filter_admits ''fraud'' ''legitimate''"
    by (simp add: filter_admits_def)
  show ?thesis
    using later_call_decides [OF i, of test_platform "''TXN''" "''fraud''"] m a
    by simp
qed

section \<open>Properties of strings\<close>

lemma js_split_nonempty: "js_split c s \<noteq> []"
  by (induction s) (auto split: list.splits)

lemma js_split_no_sep: "c \<notin> set s \<Longrightarrow> js_split c s = [s]"
  by (induction s) auto

lemma js_split_append: "c \<notin> set x \<Longrightarrow> js_split c (x @ c # r) = x # js_split c r"
  by (induction x) auto

lemma js_split_join:
  "xs \<noteq> [] \<Longrightarrow> \<forall>x \<in> set xs. c \<notin> set x \<Longrightarrow> js_split c (js_join [c] xs) = xs"
  by (induction "[c]" xs rule: js_join.induct) (auto simp: js_split_no_sep js_split_append)

lemma js_split_parts: "w \<in> set (js_split c s) \<Longrightarrow> c \<notin> set w \<and> set w \<subseteq> set s"
proof (induction s arbitrary: w)
  case Nil
  then show ?case by simp
next
  case (Cons x s)
  obtain u us where us: "js_split c s = u # us"
    using js_split_nonempty [of c s] by (cases "js_split c s") auto
  have u: "c \<notin> set u \<and> set u \<subseteq> set s"
    using Cons.IH [of u] us by simp
  have rest: "c \<notin> set v \<and> set v \<subseteq> set s" if "v \<in> set us" for v
    using Cons.IH [of v] us that by simp
  show ?case
  proof (cases "x = c")
    case True
    with Cons.prems us have "w = [] \<or> w = u \<or> w \<in> set us" by auto
    with u rest show ?thesis by auto
  next
    case False
    with Cons.prems us have "w = x # u \<or> w \<in> set us" by auto
    with u rest False show ?thesis by auto
  qed
qed

lemma trim_Nil: "trim [] = []"
  by (simp add: trim_def)

lemma trim_subset: "set (trim s) \<subseteq> set s"
proof -
  have "set (dropWhile js_whitespace (rev (dropWhile js_whitespace s))) \<subseteq>
        set (rev (dropWhile js_whitespace s))"
    by (blast dest: set_dropWhileD)
  also have "\<dots> \<subseteq> set s"
    by (auto dest: set_dropWhileD)
  finally show ?thesis by (simp add: trim_def)
qed

lemma trim_ends:
  "trim s = [] \<or> (\<not> js_whitespace (hd (trim s)) \<and> \<not> js_whitespace (last (trim s)))"
proof (cases "trim s = []")
  case True
  then show ?thesis by simp
next
  case False
  let ?a = "dropWhile js_whitespace s"
  let ?b = "dropWhile js_whitespace (rev ?a)"
  have b: "?b \<noteq> []" using False by (simp add: trim_def)
  then have hb: "\<not> js_whitespace (hd ?b)" by (rule hd_dropWhile)
  have a: "?a \<noteq> []"
  proof
    assume e: "?a = []"
    have "?b = []" unfolding e by simp
    with b show False by simp
  qed
  then have ha: "\<not> js_whitespace (hd ?a)" by (rule hd_dropWhile)
  have "last (trim s) = hd ?b" using b by (simp add: trim_def last_rev)
  moreover have "hd (trim s) = last ?b" using b by (simp add: trim_def hd_rev)
  moreover have "last ?b = last (rev ?a)"
    using b by (metis last_appendR takeWhile_dropWhile_id)
  moreover have "last (rev ?a) = hd ?a" using a by (simp add: last_rev)
  ultimately show ?thesis using ha hb by simp
qed

lemma trim_id: "s = [] \<or> (\<not> js_whitespace (hd s) \<and> \<not> js_whitespace (last s)) \<Longrightarrow> trim s = s"
proof (cases "s = []")
  case True
  then show ?thesis by (simp add: trim_def)
next
  case False
  assume "s = [] \<or> (\<not> js_whitespace (hd s) \<and> \<not> js_whitespace (last s))"
  with False have h: "\<not> js_whitespace (hd s)" and l: "\<not> js_whitespace (last s)" by auto
  from False h have a: "dropWhile js_whitespace s = s"
    by (cases s) auto
  from False l have "dropWhile js_whitespace (rev s) = rev s"
    by (cases "rev s") (auto simp: last_rev [symmetric] hd_rev)
  with a show ?thesis by (simp add: trim_def)
qed

lemma trim_idem: "trim (trim s) = trim s"
  using trim_ends [of s] by (intro trim_id) simp

lemma trim_nonblank: "s \<noteq> [] \<Longrightarrow> \<not> js_whitespace (last s) \<Longrightarrow> trim s \<noteq> []"
proof
  assume s: "s \<noteq> []" and l: "\<not> js_whitespace (last s)" and t: "trim s = []"
  from t have "dropWhile js_whitespace (rev (dropWhile js_whitespace s)) = []"
    by (simp add: trim_def)
  then have all: "\<forall>x \<in> set (dropWhile js_whitespace s). js_whitespace x"
    by (simp add: dropWhile_eq_Nil_conv)
  have "dropWhile js_whitespace s = []"
  proof (rule ccontr)
    assume ne: "dropWhile js_whitespace s \<noteq> []"
    then have "\<not> js_whitespace (hd (dropWhile js_whitespace s))" by (rule hd_dropWhile)
    moreover have "hd (dropWhile js_whitespace s) \<in> set (dropWhile js_whitespace s)"
      using ne by simp
    ultimately show False using all by blast
  qed
  then have "\<forall>x \<in> set s. js_whitespace x"
    by (simp add: dropWhile_eq_Nil_conv)
  with s l show False by simp
qed

section \<open>Properties of the parser\<close>

lemma map_of_set_prop:
  "map_of (set_prop h v row) k =
     (if h = ''__proto__'' then map_of row k else if k = h then Some v else map_of row k)"
  by (simp add: set_prop_def update_conv')

lemma keys_set_prop:
  "fst ` set (set_prop h v row) = (if h = ''__proto__'' then {} else {h}) \<union> fst ` set row"
  by (simp add: set_prop_def dom_update)

lemma forEach_header_other:
  "k \<notin> set hs \<Longrightarrow> map_of (forEach_header hs n vs row) k = map_of row k"
  by (induction hs arbitrary: n row) (auto simp: map_of_set_prop)

lemma forEach_header_keys:
  "fst ` set (forEach_header hs n vs row) = fst ` set row \<union> (set hs - {''__proto__''})"
  by (induction hs arbitrary: n row) (auto simp: keys_set_prop)

lemma forEach_header_positional:
  "i < length hs \<Longrightarrow> hs ! i \<notin> set (drop (Suc i) hs) \<Longrightarrow> hs ! i \<noteq> ''__proto__'' \<Longrightarrow>
   map_of (forEach_header hs n vs row) (hs ! i) = Some (value_at vs (n + i))"
proof (induction hs arbitrary: i n row)
  case Nil
  then show ?case by simp
next
  case (Cons h hs)
  show ?case
  proof (cases i)
    case 0
    with Cons.prems show ?thesis
      by (simp add: forEach_header_other map_of_set_prop)
  next
    case (Suc j)
    with Cons.prems Cons.IH [of j "Suc n"] show ?thesis by simp
  qed
qed

lemma forEach_header_short:
  "i < length hs \<Longrightarrow> length vs \<le> n + i \<Longrightarrow> hs ! i \<noteq> ''__proto__'' \<Longrightarrow>
   map_of (forEach_header hs n vs row) (hs ! i) = Some []"
proof (induction hs arbitrary: i n row)
  case Nil
  then show ?case by simp
next
  case (Cons h hs)
  show ?case
  proof (cases i)
    case (Suc j)
    with Cons.prems Cons.IH [of j "Suc n"] show ?thesis by simp
  next
    case 0
    show ?thesis
    proof (cases "h \<in> set hs")
      case True
      then obtain j where j: "j < length hs" "hs ! j = h"
        by (auto simp: in_set_conv_nth)
      with Cons.prems 0 Cons.IH [of j "Suc n"] show ?thesis by simp
    next
      case False
      with Cons.prems 0 show ?thesis
        by (simp add: forEach_header_other map_of_set_prop value_at_def)
    qed
  qed
qed

lemma parse_lines_map:
  "parse_lines hs lines data =
     data @ map (row_of_line hs) (filter (\<lambda>l. trim l \<noteq> []) lines)"
  by (induction lines arbitrary: data) (simp_all add: row_of_line_def Let_def)

lemma parseCSV_rows:
  "parseCSV content =
     map (row_of_line (map trim (js_split CHR '','' (hd (js_split CHR 0x0A (trim content))))))
       (filter (\<lambda>l. trim l \<noteq> []) (tl (js_split CHR 0x0A (trim content))))"
  by (simp add: parseCSV_def Let_def parse_lines_map)

lemma parseCSV_data_lines:
  "parseCSV content = map (row_of_line (csv_headers content)) (data_lines content)"
  by (simp add: parseCSV_rows csv_headers_def data_lines_def csv_lines_def)

text \<open>
  Claim C4, at a header that names a column \<^verbatim>\<open>__proto__\<close>: the row of the data line lacks
  that key, so its key set is not the header's column list.
\<close>

theorem parseCSV_proto_header:
  "csv_headers (''__proto__,amount\<newline>x,5'') = [''__proto__'', ''amount''] \<and>
   parseCSV (''__proto__,amount\<newline>x,5'') = [[(''amount'', ''5'')]] \<and>
   fst ` set (hd (parseCSV (''__proto__,amount\<newline>x,5''))) \<noteq>
     set (csv_headers (''__proto__,amount\<newline>x,5''))"
proof -
  have h: "csv_headers (''__proto__,amount\<newline>x,5'') = [''__proto__'', ''amount'']"
    by (simp add: csv_headers_def csv_lines_def trim_def js_whitespace_def)
  have r: "parseCSV (''__proto__,amount\<newline>x,5'') = [[(''amount'', ''5'')]]"
    by (simp add: parseCSV_def trim_def js_whitespace_def set_prop_def value_at_def)
  show ?thesis
    unfolding h r by simp
qed

text \<open>
  What \<open>parseCSV\<close> does for every input: one row per data line that is not blank, in
  order; the keys of a row are the header's columns but \<^verbatim>\<open>__proto__\<close>; a column for which
  the line has no field holds the empty text; and an input that is blank, or a single line,
  gives no row.
\<close>

theorem parseCSV_rows_keys:
  "length (parseCSV content) = length (data_lines content) \<and>
   (\<forall>i < length (data_lines content).
      parseCSV content ! i = row_of_line (csv_headers content) (data_lines content ! i) \<and>
      fst ` set (parseCSV content ! i) = set (csv_headers content) - {''__proto__''} \<and>
      (\<forall>j < length (csv_headers content).
         csv_headers content ! j \<noteq> ''__proto__'' \<longrightarrow>
         length (js_split CHR '','' (data_lines content ! i)) \<le> j \<longrightarrow>
         map_of (parseCSV content ! i) (csv_headers content ! j) = Some [])) \<and>
   (trim content = [] \<longrightarrow> parseCSV content = []) \<and>
   (CHR 0x0A \<notin> set (trim content) \<longrightarrow> parseCSV content = [])"
proof -
  have keys: "fst ` set (row_of_line hs l) = set hs - {''__proto__''}" for hs l
    by (simp add: row_of_line_def forEach_header_keys)
  have short: "map_of (row_of_line hs l) (hs ! j) = Some []"
    if "j < length hs" "hs ! j \<noteq> ''__proto__''" "length (js_split CHR '','' l) \<le> j" for hs l j
    unfolding row_of_line_def using that by (intro forEach_header_short) simp_all
  have blank: "parseCSV content = []" if "trim content = []"
    using that by (simp add: parseCSV_def)
  have single: "parseCSV content = []" if "CHR 0x0A \<notin> set (trim content)"
    using that by (simp add: parseCSV_def js_split_no_sep)
  show ?thesis
    using keys short blank single by (simp add: parseCSV_data_lines)
qed

theorem parseCSV_rows_keys_witness:
  "data_lines ''a,b\<newline>1\<newline> '' = [''1''] \<and>
   csv_headers ''a,b\<newline>1\<newline> '' = [''a'', ''b''] \<and>
   length (parseCSV ''a,b\<newline>1\<newline> '') = 1 \<and>
   fst ` set (parseCSV ''a,b\<newline>1\<newline> '' ! 0) = {''a'', ''b''} \<and>
   map_of (parseCSV ''a,b\<newline>1\<newline> '' ! 0) ''b'' = Some []"
proof -
  let ?c = "''a,b\<newline>1\<newline> ''"
  have d: "data_lines ?c = [''1'']"
    by (simp add: data_lines_def csv_lines_def trim_def js_whitespace_def)
  have h: "csv_headers ?c = [''a'', ''b'']"
    by (simp add: csv_headers_def csv_lines_def trim_def js_whitespace_def)
  have i: "0 < length (data_lines ?c)"
    by (simp add: d)
  have len: "length (parseCSV ?c) = length (data_lines ?c)"
    using parseCSV_rows_keys [of ?c] by blast
  have keys: "fst ` set (parseCSV ?c ! 0) = set (csv_headers ?c) - {''__proto__''}"
    using parseCSV_rows_keys [of ?c] i by blast
  have short: "\<forall>j < length (csv_headers ?c).
         csv_headers ?c ! j \<noteq> ''__proto__'' \<longrightarrow>
         length (js_split CHR '','' (data_lines ?c ! 0)) \<le> j \<longrightarrow>
         map_of (parseCSV ?c ! 0) (csv_headers ?c ! j) = Some []"
    using parseCSV_rows_keys [of ?c] i by blast
  have "map_of (parseCSV ?c ! 0) ''b'' = Some []"
    using short [rule_format, of 1] by (simp add: h d)
  moreover have "fst ` set (parseCSV ?c ! 0) = {''a'', ''b''}"
    unfolding keys h by auto
  ultimately show ?thesis
    using d h len by simp
qed

section \<open>The round trip through the export\<close>

lemma clean_Nil: "clean []"
  by (simp add: clean_def trim_Nil)

lemma forEach_header_values:
  "map_of (forEach_header hs n vs row) k = Some v \<Longrightarrow>
   (\<exists>j. v = value_at vs j) \<or> map_of row k = Some v"
proof (induction hs arbitrary: n row)
  case Nil
  then show ?case by simp
next
  case (Cons h hs)
  from Cons.prems Cons.IH [of "Suc n" "set_prop h (value_at vs n) row"]
  show ?case by (auto simp: map_of_set_prop split: if_splits)
qed

lemma value_at_clean:
  assumes "CHR 0x0A \<notin> set line"
  shows "clean (value_at (map trim (js_split CHR '','' line)) j)"
proof (cases "j < length (js_split CHR '','' line)")
  case False
  then show ?thesis by (simp add: value_at_def clean_Nil)
next
  case True
  let ?w = "js_split CHR '','' line ! j"
  have w: "?w \<in> set (js_split CHR '','' line)" using True by simp
  then have "CHR '','' \<notin> set ?w" and sub: "set ?w \<subseteq> set line"
    using js_split_parts [of ?w "CHR '',''" line] by simp_all
  then have "CHR '','' \<notin> set (trim ?w)" "CHR 0x0A \<notin> set (trim ?w)"
    using trim_subset [of ?w] assms by auto
  then show ?thesis using True by (simp add: value_at_def clean_def trim_idem)
qed

lemma parseCSV_clean:
  assumes "row \<in> set (parseCSV content)"
  shows "clean (field_text row k)"
proof -
  from assms obtain line where line: "line \<in> set (tl (js_split CHR 0x0A (trim content)))"
    and row: "row = row_of_line (map trim (js_split CHR '','' (hd (js_split CHR 0x0A (trim content))))) line"
    by (auto simp: parseCSV_rows)
  from line have "line \<in> set (js_split CHR 0x0A (trim content))"
    by (rule list.set_sel(2) [rotated]) (simp add: js_split_nonempty)
  then have nl: "CHR 0x0A \<notin> set line"
    using js_split_parts by blast
  show ?thesis
  proof (cases "map_of row k")
    case None
    then show ?thesis by (simp add: field_text_def clean_Nil)
  next
    case (Some v)
    then have "\<exists>j. v = value_at (map trim (js_split CHR '','' line)) j"
      using forEach_header_values [of _ 0 _ "[]" k v] by (simp add: row row_of_line_def)
    with Some value_at_clean [OF nl] show ?thesis by (auto simp: field_text_def)
  qed
qed

lemma analysis_loop_shape:
  "\<exists>rest. analysis_loop P random k ts acc = acc @ rest \<and>
     list_all2 (\<lambda>t res. \<exists>s inds. res = enrich t s (determineFraudStatus s) inds (getRiskLevel s)) ts rest"
proof (induction ts arbitrary: k acc)
  case Nil
  then show ?case by simp
next
  case (Cons t ts)
  let ?s = "calculateRiskScore P (random k) t"
  obtain inds k' where ik: "(if determineFraudStatus ?s = ''fraud'' then generateFraudIndicators P random (Suc k)
             else ([], Suc k)) = (inds, k')"
    by (cases "(if determineFraudStatus ?s = ''fraud'' then generateFraudIndicators P random (Suc k)
             else ([], Suc k))") 
  let ?res = "enrich t ?s (determineFraudStatus ?s) inds (getRiskLevel ?s)"
  from Cons.IH [of k' "acc @ [?res]"] obtain rest where
    rest: "analysis_loop P random k' ts (acc @ [?res]) = (acc @ [?res]) @ rest"
      "list_all2 (\<lambda>t res. \<exists>s inds. res = enrich t s (determineFraudStatus s) inds (getRiskLevel s)) ts rest"
    by blast
  have "analysis_loop P random k (t # ts) acc = acc @ (?res # rest)"
    using rest(1) ik by (simp add: Let_def)
  moreover have "list_all2 (\<lambda>t res. \<exists>s inds. res = enrich t s (determineFraudStatus s) inds (getRiskLevel s))
      (t # ts) (?res # rest)"
    using rest(2) by auto
  ultimately show ?case by blast
qed

lemma performAnalysis_shape:
  "list_all2 (\<lambda>t res. \<exists>s inds. res = enrich t s (determineFraudStatus s) inds (getRiskLevel s))
     ts (performAnalysis P random ts)"
  using analysis_loop_shape [of P random 0 ts "[]"] by (auto simp: performAnalysis_def)

lemma get_prop_enrich_field:
  "k \<notin> {''riskScore'', ''status'', ''indicators'', ''riskLevel''} \<Longrightarrow>
   join_element (or_empty (get_prop (enrich t s st inds lvl) k)) = field_text t k"
  by (auto simp: get_prop_def enrich_def update_conv' map_of_map field_text_def or_empty_def
      join_element_def split: option.splits)

lemma cell_status: "join_element (or_empty (JStr st)) = st"
  by (simp add: or_empty_def join_element_def)

lemma cell_score: "join_element (or_empty (JNum s)) = score_text s"
  by (simp add: or_empty_def join_element_def score_text_def)

lemma export_cells_enrich:
  "map join_element (export_cells (enrich t s st inds lvl)) =
     map (field_text t) (take 6 export_fields) @ [score_text s, st]"
  by (simp add: export_cells_def export_fields_def get_prop_enrich_field enrich_props
      cell_status cell_score)

lemma digit_plain: "k < 10 \<Longrightarrow> plain (''0123456789'' ! k)"
proof -
  assume "k < 10"
  then have "k = 0 \<or> k = 1 \<or> k = 2 \<or> k = 3 \<or> k = 4 \<or> k = 5 \<or> k = 6 \<or> k = 7 \<or> k = 8 \<or> k = 9"
    by arith
  then show ?thesis
    by (elim disjE) (simp_all add: plain_def js_whitespace_def)
qed

lemma digits_plain: "\<forall>c \<in> set (digits n). plain c"
proof (induction n rule: digits.induct)
  case (1 n)
  show ?case
  proof (cases "n < 10")
    case True
    then show ?thesis by (subst digits.simps) (simp add: digit_plain)
  next
    case False
    with 1 show ?thesis
      by (subst digits.simps) (simp add: digit_plain ball_Un)
  qed
qed

lemma no_plain_clean:
  assumes "\<forall>c \<in> set v. plain c"
  shows "clean v"
proof -
  have "trim v = v"
  proof (rule trim_id, cases "v = []")
    case False
    then have "hd v \<in> set v" "last v \<in> set v" by simp_all
    with assms show "v = [] \<or> \<not> js_whitespace (hd v) \<and> \<not> js_whitespace (last v)"
      by (auto simp: plain_def)
  qed simp
  with assms show ?thesis by (auto simp: clean_def plain_def)
qed

lemma score_text_clean: "clean (score_text s)"
proof -
  have "plain CHR ''-''"
    by (simp add: plain_def js_whitespace_def)
  then have "\<forall>c \<in> set (score_text s). plain c"
    using digits_plain by (simp add: score_text_def string_of_int_def)
  then show ?thesis
    by (intro no_plain_clean)
qed

lemma status_clean:
  "clean (determineFraudStatus s) \<and> determineFraudStatus s \<noteq> [] \<and>
   \<not> js_whitespace (last (determineFraudStatus s))"
  by (simp add: determineFraudStatus_def clean_def trim_def js_whitespace_def)

lemma js_join_set: "set (js_join sep xs) \<subseteq> set sep \<union> \<Union> (set ` set xs)"
  by (induction sep xs rule: js_join.induct) auto

lemma js_join_last:
  "xs \<noteq> [] \<Longrightarrow> last xs \<noteq> [] \<Longrightarrow>
   js_join sep xs \<noteq> [] \<and> last (js_join sep xs) = last (last xs)"
  by (induction sep xs rule: js_join.induct) auto

lemma js_join_hd: "x \<noteq> [] \<Longrightarrow> hd (js_join sep (x # xs)) = hd x"
  by (cases xs) auto

lemma distinct_nth_drop:
  "distinct xs \<Longrightarrow> j < length xs \<Longrightarrow> xs ! j \<notin> set (drop (Suc j) xs)"
  by (metis Cons_nth_drop_Suc distinct.simps(2) distinct_drop)

lemma export_headers_text:
  "js_join '','' export_headers =
     ''Transaction ID,Amount,Merchant,Location,Timestamp,Card Number,Risk Score,Status''"
  by (simp add: export_headers_def)

lemma export_headers_parse:
  "map trim (js_split CHR '','' (js_join '','' export_headers)) = export_headers"
proof -
  have "js_split CHR '','' (js_join '','' export_headers) = export_headers"
    by (rule js_split_join) (simp_all add: export_headers_def)
  moreover have "map trim export_headers = export_headers"
    by (simp add: export_headers_def trim_def js_whitespace_def)
  ultimately show ?thesis by simp
qed

lemma good_cells_line:
  assumes "good_cells cells"
  shows "CHR 0x0A \<notin> set (js_join '','' cells)"
    and "trim (js_join '','' cells) \<noteq> []"
    and "js_join '','' cells \<noteq> []"
    and "\<not> js_whitespace (last (js_join '','' cells))"
    and "map trim (js_split CHR '','' (js_join '','' cells)) = cells"
proof -
  from assms have ne: "cells \<noteq> []" by (auto simp: good_cells_def)
  from assms have cl: "\<forall>c \<in> set cells. clean c" by (simp add: good_cells_def)
  show "CHR 0x0A \<notin> set (js_join '','' cells)"
    using js_join_set [of "'',''" cells] cl by (auto simp: clean_def)
  have l: "js_join '','' cells \<noteq> [] \<and> last (js_join '','' cells) = last (last cells)"
    using assms ne by (intro js_join_last) (simp_all add: good_cells_def)
  then show "js_join '','' cells \<noteq> []" by simp
  show ws: "\<not> js_whitespace (last (js_join '','' cells))"
    using l assms by (simp add: good_cells_def)
  show "trim (js_join '','' cells) \<noteq> []"
    using l ws by (intro trim_nonblank) simp_all
  have "js_split CHR '','' (js_join '','' cells) = cells"
    using ne cl by (intro js_split_join) (simp_all add: clean_def)
  moreover have "map trim cells = cells"
    using cl by (intro map_idI) (simp add: clean_def)
  ultimately show "map trim (js_split CHR '','' (js_join '','' cells)) = cells" by simp
qed

lemma good_cells_row:
  assumes "good_cells cells" and "j < 8"
  shows "map_of (row_of_line export_headers (js_join '','' cells)) (export_headers ! j) =
     Some (cells ! j)"
proof -
  have d: "distinct export_headers" and p: "''__proto__'' \<notin> set export_headers"
    and len: "length export_headers = 8"
    by (simp_all add: export_headers_def)
  have "export_headers ! j \<in> set export_headers"
    using assms(2) len by simp
  with p have np: "export_headers ! j \<noteq> ''__proto__''" by metis
  have "map_of (forEach_header export_headers 0 cells []) (export_headers ! j) =
      Some (value_at cells (0 + j))"
    using assms(2) len d np by (intro forEach_header_positional distinct_nth_drop) simp_all
  then show ?thesis
    using assms by (simp add: row_of_line_def good_cells_line(5) value_at_def good_cells_def)
qed

lemma export_text_parse:
  assumes "\<forall>l \<in> set lines. \<exists>cells. good_cells cells \<and> l = js_join '','' cells"
  shows "parseCSV (js_join [CHR 0x0A] (js_join '','' export_headers # lines)) =
     map (row_of_line export_headers) lines"
proof -
  let ?hdr = "js_join '','' export_headers"
  let ?text = "js_join [CHR 0x0A] (?hdr # lines)"
  have line: "CHR 0x0A \<notin> set l \<and> trim l \<noteq> [] \<and> l \<noteq> [] \<and> \<not> js_whitespace (last l)"
    if "l \<in> set lines" for l
  proof -
    from assms that obtain cells where c: "good_cells cells" and l: "l = js_join '','' cells"
      by blast
    show ?thesis
      unfolding l using good_cells_line(1-4) [OF c] by (intro conjI)
  qed
  have hdr: "CHR 0x0A \<notin> set ?hdr \<and> ?hdr \<noteq> [] \<and> \<not> js_whitespace (hd ?hdr) \<and>
      \<not> js_whitespace (last ?hdr)"
    by (simp add: export_headers_text js_whitespace_def)
  have lastl: "last (?hdr # lines) \<noteq> [] \<and> \<not> js_whitespace (last (last (?hdr # lines)))"
    using hdr line by (cases "lines = []") simp_all
  have "?text \<noteq> [] \<and> last ?text = last (last (?hdr # lines))"
    using lastl by (intro js_join_last) simp_all
  moreover have "hd ?text = hd ?hdr"
    using hdr by (intro js_join_hd) simp
  ultimately have "trim ?text = ?text"
    using hdr lastl by (intro trim_id) simp
  moreover have "js_split CHR 0x0A ?text = ?hdr # lines"
    using hdr line by (intro js_split_join) auto
  moreover have "filter (\<lambda>l. trim l \<noteq> []) lines = lines"
    using line by (simp add: filter_id_conv)
  ultimately show ?thesis
    by (simp add: parseCSV_rows export_headers_parse)
qed

lemma enriched_cells_good:
  assumes "t \<in> set (parseCSV content)"
  shows "good_cells (map (field_text t) (take 6 export_fields) @
           [score_text s, determineFraudStatus s])"
  using assms status_clean [of s]
  by (simp add: good_cells_def export_fields_def parseCSV_clean score_text_clean)

lemma note_example_rows:
  "parseCSV (''transaction_id,note\<newline>T1,hello'') =
     [[(''transaction_id'', ''T1''), (''note'', ''hello'')]]"
  by (simp add: parseCSV_def trim_def js_whitespace_def set_prop_def value_at_def)

lemma note_example_results:
  "performAnalysis test_platform (\<lambda>k. 0) [[(''transaction_id'', ''T1''), (''note'', ''hello'')]] =
    [[(''transaction_id'', JStr ''T1''), (''note'', JStr ''hello''), (''riskScore'', JNum 15),
      (''status'', JStr ''legitimate''), (''indicators'', JArr []), (''riskLevel'', JStr ''Low'')]]"
  by (simp add: pipeline_eval)

lemma note_example_export:
  "exportToCSV [[(''transaction_id'', JStr ''T1''), (''note'', JStr ''hello''), (''riskScore'', JNum 15),
      (''status'', JStr ''legitimate''), (''indicators'', JArr []), (''riskLevel'', JStr ''Low'')]] =
   ''Transaction ID,Amount,Merchant,Location,Timestamp,Card Number,Risk Score,Status\<newline>T1,,,,,,15,legitimate''"
  by (simp add: exportToCSV_def export_headers_def export_line_def export_cells_def get_prop_def
      or_empty_def join_element_def string_of_int_def digits.simps)

lemma note_example_reparsed:
  "parseCSV (''Transaction ID,Amount,Merchant,Location,Timestamp,Card Number,Risk Score,Status\<newline>T1,,,,,,15,legitimate'') =
   [[(''Transaction ID'', ''T1''), (''Amount'', []), (''Merchant'', []), (''Location'', []),
     (''Timestamp'', []), (''Card Number'', []), (''Risk Score'', ''15''), (''Status'', ''legitimate'')]]"
  by (simp add: parseCSV_def trim_def js_whitespace_def set_prop_def value_at_def)

text \<open>
  Claim C6, as stated: the original field values of every row come back. The export has
  eight fixed columns, so a column of the input that is none of the six transaction fields
  is lost: the value \<open>hello\<close> of the column \<open>note\<close> is nowhere in the re-parsed row.
\<close>

theorem export_drops_other_columns:
  "map snd (parseCSV (''transaction_id,note\<newline>T1,hello'') ! 0) = [''T1'', ''hello''] \<and>
   map snd (parseCSV (exportToCSV (performAnalysis test_platform (\<lambda>k. 0)
     (parseCSV (''transaction_id,note\<newline>T1,hello'')))) ! 0) =
     [''T1'', [], [], [], [], [], ''15'', ''legitimate''] \<and>
   ''hello'' \<notin> snd ` set (parseCSV (exportToCSV (performAnalysis test_platform (\<lambda>k. 0)
     (parseCSV (''transaction_id,note\<newline>T1,hello'')))) ! 0)"
  by (simp add: note_example_rows note_example_results note_example_export note_example_reparsed)

text \<open>
  Claim C6, amended. For every input, the export of the pipeline's results parses back to
  as many rows, in order, and in each the first six columns of the export hold the row's
  \<open>transaction_id\<close>, \<open>amount\<close>, \<open>merchant\<close>, \<open>location\<close>, \<open>timestamp\<close> and
  \<open>card_number\<close>, the empty text standing for a field the row lacks.
\<close>

theorem export_parse_roundtrip:
  "length (parseCSV (exportToCSV (performAnalysis P random (parseCSV content)))) =
     length (parseCSV content) \<and>
   (\<forall>i < length (parseCSV content). \<forall>j < 6.
      map_of (parseCSV (exportToCSV (performAnalysis P random (parseCSV content))) ! i)
        (export_headers ! j) =
      Some (field_text (parseCSV content ! i) (export_fields ! j)))"
proof -
  let ?rows = "parseCSV content"
  let ?rs = "performAnalysis P random ?rows"
  let ?R = "\<lambda>t res. \<exists>s inds. res = enrich t s (determineFraudStatus s) inds (getRiskLevel s)"
  let ?cells = "\<lambda>t s. map (field_text t) (take 6 export_fields) @ [score_text s, determineFraudStatus s]"
  have shape: "list_all2 ?R ?rows ?rs"
    by (rule performAnalysis_shape)
  then have len: "length ?rs = length ?rows"
    by (simp add: list_all2_lengthD)
  have nth: "\<exists>s. good_cells (?cells (?rows ! i) s) \<and>
      export_line (?rs ! i) = js_join '','' (?cells (?rows ! i) s)" if "i < length ?rows" for i
  proof -
    from shape that obtain s inds where
      "?rs ! i = enrich (?rows ! i) s (determineFraudStatus s) inds (getRiskLevel s)"
      by (auto simp: list_all2_conv_all_nth)
    then have "export_line (?rs ! i) = js_join '','' (?cells (?rows ! i) s)"
      by (simp add: export_line_def export_cells_enrich)
    moreover have "good_cells (?cells (?rows ! i) s)"
      using that by (intro enriched_cells_good [of _ content]) simp
    ultimately show ?thesis by blast
  qed
  have "\<forall>l \<in> set (map export_line ?rs). \<exists>cells. good_cells cells \<and> l = js_join '','' cells"
  proof
    fix l assume "l \<in> set (map export_line ?rs)"
    then obtain i where "i < length ?rs" "l = export_line (?rs ! i)"
      by (auto simp: in_set_conv_nth)
    with nth [of i] len show "\<exists>cells. good_cells cells \<and> l = js_join '','' cells"
      by auto
  qed
  then have reparsed: "parseCSV (exportToCSV ?rs) = map (row_of_line export_headers) (map export_line ?rs)"
    unfolding exportToCSV_def by (rule export_text_parse)
  have "map_of (parseCSV (exportToCSV ?rs) ! i) (export_headers ! j) =
      Some (field_text (?rows ! i) (export_fields ! j))" if i: "i < length ?rows" and j: "j < 6" for i j
  proof -
    from nth [OF i] obtain s where g: "good_cells (?cells (?rows ! i) s)"
      and l: "export_line (?rs ! i) = js_join '','' (?cells (?rows ! i) s)"
      by blast
    have "j < 8" using j by simp
    from good_cells_row [OF g this]
    have "map_of (row_of_line export_headers (export_line (?rs ! i))) (export_headers ! j) =
        Some (?cells (?rows ! i) s ! j)"
      by (simp only: l)
    moreover have "?cells (?rows ! i) s ! j = field_text (?rows ! i) (export_fields ! j)"
    proof -
      have "length export_fields = 8" by (simp add: export_fields_def)
      with j show ?thesis by (simp add: nth_append)
    qed
    ultimately show ?thesis
      using i len by (simp add: reparsed)
  qed
  with len reparsed show ?thesis by simp
qed

theorem export_parse_roundtrip_witness:
  "(0::nat) < length (parseCSV (''transaction_id,amount\<newline>TXN0001,6000'')) \<and>
   map_of (parseCSV (exportToCSV (performAnalysis test_platform (\<lambda>k. 0)
     (parseCSV (''transaction_id,amount\<newline>TXN0001,6000'')))) ! 0) (export_headers ! 1) =
     Some (field_text (parseCSV (''transaction_id,amount\<newline>TXN0001,6000'') ! 0)
       (export_fields ! 1)) \<and>
   field_text (parseCSV (''transaction_id,amount\<newline>TXN0001,6000'') ! 0)
     (export_fields ! 1) = ''6000'' \<and>
   export_headers ! 1 = ''Amount''"
proof -
  let ?c = "''transaction_id,amount\<newline>TXN0001,6000''"
  have p: "parseCSV ?c = [[(''transaction_id'', ''TXN0001''), (''amount'', ''6000'')]]"
    by (simp add: parseCSV_def trim_def js_whitespace_def set_prop_def value_at_def)
  have i: "(0::nat) < length (parseCSV ?c)"
    by (simp add: p)
  have f: "field_text (parseCSV ?c ! 0) (export_fields ! 1) = ''6000''"
    by (simp add: p field_text_def export_fields_def)
  have h: "export_headers ! 1 = ''Amount''"
    by (simp add: export_headers_def)
  have "map_of (parseCSV (exportToCSV (performAnalysis test_platform (\<lambda>k. 0) (parseCSV ?c))) ! 0)
      (export_headers ! 1) = Some (field_text (parseCSV ?c ! 0) (export_fields ! 1))"
    using export_parse_roundtrip [of test_platform "\<lambda>k. 0" ?c] i by simp
  with i f h show ?thesis by blast
qed

section \<open>Loading the results page\<close>

lemma as_results_objects: "as_results (map JObj objs) = Some objs"
  by (induction objs) simp_all

text \<open>
  Claim C8, at a stored text that is not JSON: \<^verbatim>\<open>JSON.parse\<close> throws before the check
  for "no results" is reached, so the page is left as it was, with both storage entries in
  place and no redirect.
\<close>

theorem initResultsPage_malformed_throws:
  assumes "localStorage pg ''fraudGuard_results'' = Some s" and "s \<noteq> []"
    and "JSON_parse P s = None"
  shows "initResultsPage P text_of pg = Threw pg"
  using assms by (simp add: initResultsPage_def)

theorem initResultsPage_malformed_throws_witness:
  "localStorage \<lparr>localStorage = [''fraudGuard_results'' \<mapsto> ''{oops''], href = ''results.html'',
      window_analysisResults = JUndefined, window_analysisTimestamp = None, rendered = None\<rparr>
     ''fraudGuard_results'' = Some ''{oops'' \<and>
   ''{oops'' \<noteq> [] \<and> JSON_parse test_platform ''{oops'' = None \<and>
   initResultsPage test_platform (\<lambda>r. [])
     \<lparr>localStorage = [''fraudGuard_results'' \<mapsto> ''{oops''], href = ''results.html'',
      window_analysisResults = JUndefined, window_analysisTimestamp = None, rendered = None\<rparr> =
   Threw \<lparr>localStorage = [''fraudGuard_results'' \<mapsto> ''{oops''], href = ''results.html'',
      window_analysisResults = JUndefined, window_analysisTimestamp = None, rendered = None\<rparr>"
proof -
  let ?pg = "\<lparr>localStorage = [''fraudGuard_results'' \<mapsto> ''{oops''], href = ''results.html'',
      window_analysisResults = JUndefined, window_analysisTimestamp = None, rendered = None\<rparr>"
  have a: "localStorage ?pg ''fraudGuard_results'' = Some ''{oops''" by simp
  have b: "''{oops'' \<noteq> []" by simp
  have c: "JSON_parse test_platform ''{oops'' = None" by (simp add: test_platform_def)
  show ?thesis
    using initResultsPage_malformed_throws [OF a b c, of "\<lambda>r. []"] a b c by blast
qed

text \<open>
  The cases of \<open>initResultsPage\<close> without results. With no stored text, an empty one, or
  one that parses to a falsy value or to something of length 0, both entries are removed, the
  window goes to the upload page and nothing is rendered.
\<close>

theorem initResultsPage_no_results:
  assumes "localStorage pg ''fraudGuard_results'' = None \<or>
           localStorage pg ''fraudGuard_results'' = Some [] \<or>
           (\<exists>s v. localStorage pg ''fraudGuard_results'' = Some s \<and> JSON_parse P s = Some v \<and>
                  (\<not> truthy v \<or> length_is_zero v))"
  shows "initResultsPage P text_of pg =
     Returned (pg\<lparr>localStorage := (localStorage pg)(''fraudGuard_results'' := None,
                                                     ''fraudGuard_timestamp'' := None),
                  href := ''upload.html''\<rparr>)"
  using assms by (auto simp: initResultsPage_def)

theorem initResultsPage_no_results_witness:
  "JSON_parse test_platform ''[]'' = Some (JArr []) \<and> length_is_zero (JArr []) \<and>
   initResultsPage test_platform (\<lambda>r. [])
     \<lparr>localStorage = [''fraudGuard_results'' \<mapsto> ''[]''], href = ''results.html'',
      window_analysisResults = JUndefined, window_analysisTimestamp = None, rendered = None\<rparr> =
   Returned \<lparr>localStorage = [''fraudGuard_results'' \<mapsto> ''[]'']
        (''fraudGuard_results'' := None, ''fraudGuard_timestamp'' := None),
      href = ''upload.html'',
      window_analysisResults = JUndefined, window_analysisTimestamp = None, rendered = None\<rparr>"
proof -
  let ?pg = "\<lparr>localStorage = [''fraudGuard_results'' \<mapsto> ''[]''], href = ''results.html'',
      window_analysisResults = JUndefined, window_analysisTimestamp = None, rendered = None\<rparr>"
  have c: "JSON_parse test_platform ''[]'' = Some (JArr [])" by (simp add: test_platform_def)
  have "\<exists>s v. localStorage ?pg ''fraudGuard_results'' = Some s \<and> JSON_parse test_platform s = Some v \<and>
      (\<not> truthy v \<or> length_is_zero v)"
    using c by simp
  then show ?thesis
    using initResultsPage_no_results [of ?pg test_platform "\<lambda>r. []"] c by simp
qed

text \<open>
  The case with results. With a stored array of objects that is not empty, the two globals
  are set and the summary and the table of these results are rendered.
\<close>

theorem initResultsPage_displays:
  assumes "localStorage pg ''fraudGuard_results'' = Some s" and "s \<noteq> []"
    and "JSON_parse P s = Some (JArr (map JObj objs))" and "objs \<noteq> []"
  shows "initResultsPage P text_of pg =
     Returned (pg\<lparr>window_analysisResults := JArr (map JObj objs),
                  window_analysisTimestamp := localStorage pg ''fraudGuard_timestamp'',
                  rendered := Some (displayResults P objs, populateResultsTable text_of objs)\<rparr>)"
  using assms by (simp add: initResultsPage_def as_results_objects)

theorem initResultsPage_displays_witness:
  "JSON_parse test_platform ''[{}]'' = Some (JArr (map JObj [[]])) \<and>
   initResultsPage test_platform (\<lambda>r. [])
     \<lparr>localStorage = [''fraudGuard_results'' \<mapsto> ''[{}]''], href = ''results.html'',
      window_analysisResults = JUndefined, window_analysisTimestamp = None, rendered = None\<rparr> =
   Returned \<lparr>localStorage = [''fraudGuard_results'' \<mapsto> ''[{}]''], href = ''results.html'',
      window_analysisResults = JArr [JObj []], window_analysisTimestamp = None,
      rendered = Some (displayResults test_platform [[]], populateResultsTable (\<lambda>r. []) [[]])\<rparr>"
proof -
  let ?pg = "\<lparr>localStorage = [''fraudGuard_results'' \<mapsto> ''[{}]''], href = ''results.html'',
      window_analysisResults = JUndefined, window_analysisTimestamp = None, rendered = None\<rparr>"
  have a: "localStorage ?pg ''fraudGuard_results'' = Some ''[{}]''" by simp
  have b: "''[{}]'' \<noteq> []" by simp
  have c: "JSON_parse test_platform ''[{}]'' = Some (JArr (map JObj [[]]))"
    by (simp add: test_platform_def)
  have d: "[[]] \<noteq> ([] :: result list)" by simp
  show ?thesis
    using initResultsPage_displays [OF a b c d, of "\<lambda>r. []"] c by simp
qed

end
